theory Spec2Isabelle
  imports Main "HOL-Library.Word"
begin

section \<open>The report chat script (static/script\_report.js)\<close>

text \<open>
  The script drives a chat-style page: a welcome message with a "Download Report" button,
  a credential dialog, one POST to \<^verbatim>\<open>/api/report\<close>, the saving of the returned
  file under the name found in the \<^verbatim>\<open>Content-Disposition\<close> header, and a Home
  button that goes back to the landing view.

  The embedding follows the source function by function. The DOM and the closure variable
  \<^verbatim>\<open>isLanding\<close> are the fields of one record, every handler is a function on that
  record, a suspended \<^verbatim>\<open>onSubmit\<close> is an entry of a list of pending requests, and
  what leaves the page (network requests, object URLs, the save click, console output) is appended
  to a trace.
\<close>

subsection \<open>JavaScript strings\<close>

text \<open>
  A JavaScript string is a sequence of 16-bit code units. Literals of the source are written
  with \<open>js\<close> where they are ASCII, and as code-unit numbers where they are not.
\<close>

type_synonym code_unit = "16 word"
type_synonym jsstring = "code_unit list"

definition js :: "string \<Rightarrow> jsstring" where
  "js s = map of_char s"

text \<open>Values a handler can throw: the name of the error and its message.\<close>

datatype exn = Exn (exn_name: jsstring) (exn_message: jsstring)

definition URIError :: exn where
  "URIError = Exn (js ''URIError'') (js ''URI malformed'')"

subsection \<open>The three regular expressions of \<^verbatim>\<open>parseFilenameFromDisposition\<close>\<close>

text \<open>
  \<^verbatim>\<open>s.match(re)\<close> without the \<^verbatim>\<open>g\<close> flag tries the pattern at start index 0, 1, ...
  and returns the first match, or null. All three patterns are a literal followed by a greedy
  group \<^verbatim>\<open>([^c]+)\<close>; in the second the group is followed by a closing quote.

  \<open>group_open lit stop s\<close> is the group of \<^verbatim>\<open>lit([^stop]+)\<close> matched at the start of
  \<open>s\<close>: the longest run of code units other than \<open>stop\<close> after the literal, which has to
  be non-empty.
  \<open>group_closed lit q s\<close> is the group of \<^verbatim>\<open>lit([^q]+)q\<close> matched at the start of
  \<open>s\<close>: the run stops at the first \<open>q\<close> or at the end of the string, and backtracking to
  a shorter run cannot help since the next code unit is then not \<open>q\<close>; so the pattern matches
  when the run is non-empty and something (the \<open>q\<close>) follows it.
\<close>

definition group_open :: "jsstring \<Rightarrow> code_unit \<Rightarrow> jsstring \<Rightarrow> jsstring option" where
  "group_open lit stop s =
     (if take (length lit) s = lit
      then (let g = takeWhile (\<lambda>c. c \<noteq> stop) (drop (length lit) s)
            in if g = [] then None else Some g)
      else None)"

definition group_closed :: "jsstring \<Rightarrow> code_unit \<Rightarrow> jsstring \<Rightarrow> jsstring option" where
  "group_closed lit q s =
     (if take (length lit) s = lit
      then (let g = takeWhile (\<lambda>c. c \<noteq> q) (drop (length lit) s)
            in if g = [] \<or> dropWhile (\<lambda>c. c \<noteq> q) (drop (length lit) s) = [] then None
               else Some g)
      else None)"

text \<open>The start positions are tried from the left.\<close>

fun first_match :: "(jsstring \<Rightarrow> jsstring option) \<Rightarrow> jsstring \<Rightarrow> jsstring option" where
  "first_match m [] = m []"
| "first_match m (c # s) = (case m (c # s) of Some g \<Rightarrow> Some g | None \<Rightarrow> first_match m s)"

definition semicolon :: code_unit where "semicolon = 0x3B"
definition dquote :: code_unit where "dquote = 0x22"
definition percent :: code_unit where "percent = 0x25"
definition apostrophe :: code_unit where "apostrophe = 0x27"

text \<open>\<^verbatim>\<open>/filename\*=UTF-8''([^;]+)/\<close>, \<^verbatim>\<open>/filename="([^"]+)"/\<close>,
  \<^verbatim>\<open>/filename=([^;]+)/\<close>: the value of \<^verbatim>\<open>match[1]\<close>, or \<open>None\<close> for null.\<close>

definition rx_extended :: "jsstring \<Rightarrow> jsstring option" where
  "rx_extended =
     first_match (group_open (js ''filename*=UTF-8'' @ [apostrophe, apostrophe]) semicolon)"

definition rx_quoted :: "jsstring \<Rightarrow> jsstring option" where
  "rx_quoted = first_match (group_closed (js ''filename='' @ [dquote]) dquote)"

definition rx_bare :: "jsstring \<Rightarrow> jsstring option" where
  "rx_bare = first_match (group_open (js ''filename='') semicolon)"

subsection \<open>\<^verbatim>\<open>decodeURIComponent\<close>\<close>

text \<open>
  The built-in follows the abstract operation Decode of ECMA-262 with an empty set of preserved
  escapes. The string is read from the left. A code unit other than \<^verbatim>\<open>%\<close> is copied.
  A \<^verbatim>\<open>%\<close> needs two hexadecimal digits after it, which give an octet \<open>B\<close>; with no
  leading 1 bit the octet is the code unit; with \<open>n\<close> leading 1 bits, \<open>n\<close> from 2 to 4,
  \<open>n - 1\<close> further escapes \<^verbatim>\<open>%XX\<close> have to follow at once, the \<open>n\<close> octets
  have to be the well-formed UTF-8 encoding of a code point, and that code point is appended in
  UTF-16. Everything else throws a URIError.
\<close>

definition hex_digit :: "code_unit \<Rightarrow> nat option" where
  "hex_digit c =
     (if 0x30 \<le> c \<and> c \<le> 0x39 then Some (unat c - 0x30)
      else if 0x41 \<le> c \<and> c \<le> 0x46 then Some (unat c - 0x41 + 10)
      else if 0x61 \<le> c \<and> c \<le> 0x66 then Some (unat c - 0x61 + 10)
      else None)"

definition ParseHexOctet :: "code_unit \<Rightarrow> code_unit \<Rightarrow> nat option" where
  "ParseHexOctet h1 h2 =
     (case hex_digit h1 of None \<Rightarrow> None
      | Some a \<Rightarrow> (case hex_digit h2 of None \<Rightarrow> None | Some b \<Rightarrow> Some (16 * a + b)))"

text \<open>The number of leading 1 bits of an octet.\<close>

definition leading_ones :: "nat \<Rightarrow> nat" where
  "leading_ones B =
     (if B < 0x80 then 0 else if B < 0xC0 then 1 else if B < 0xE0 then 2
      else if B < 0xF0 then 3 else if B < 0xF8 then 4 else 5)"

definition continuation :: "nat \<Rightarrow> bool" where
  "continuation b = (0x80 \<le> b \<and> b \<le> 0xBF)"

text \<open>The well-formed UTF-8 byte sequences of two to four octets (Unicode, table 3-7).\<close>

fun well_formed_utf8 :: "nat list \<Rightarrow> bool" where
  "well_formed_utf8 [b1, b2] = (0xC2 \<le> b1 \<and> b1 \<le> 0xDF \<and> continuation b2)"
| "well_formed_utf8 [b1, b2, b3] =
     ((b1 = 0xE0 \<and> 0xA0 \<le> b2 \<and> b2 \<le> 0xBF
       \<or> 0xE1 \<le> b1 \<and> b1 \<le> 0xEC \<and> continuation b2
       \<or> b1 = 0xED \<and> 0x80 \<le> b2 \<and> b2 \<le> 0x9F
       \<or> 0xEE \<le> b1 \<and> b1 \<le> 0xEF \<and> continuation b2)
      \<and> continuation b3)"
| "well_formed_utf8 [b1, b2, b3, b4] =
     ((b1 = 0xF0 \<and> 0x90 \<le> b2 \<and> b2 \<le> 0xBF
       \<or> 0xF1 \<le> b1 \<and> b1 \<le> 0xF3 \<and> continuation b2
       \<or> b1 = 0xF4 \<and> 0x80 \<le> b2 \<and> b2 \<le> 0x8F)
      \<and> continuation b3 \<and> continuation b4)"
| "well_formed_utf8 _ = False"

text \<open>The code point of a well-formed sequence: the payload bits of the octets.\<close>

fun utf8_code_point :: "nat list \<Rightarrow> nat" where
  "utf8_code_point [b1, b2] = (b1 mod 0x20) * 0x40 + b2 mod 0x40"
| "utf8_code_point [b1, b2, b3] = ((b1 mod 0x10) * 0x40 + b2 mod 0x40) * 0x40 + b3 mod 0x40"
| "utf8_code_point [b1, b2, b3, b4] =
     (((b1 mod 0x08) * 0x40 + b2 mod 0x40) * 0x40 + b3 mod 0x40) * 0x40 + b4 mod 0x40"
| "utf8_code_point _ = 0"

definition UTF16EncodeCodePoint :: "nat \<Rightarrow> jsstring" where
  "UTF16EncodeCodePoint cp =
     (if cp \<le> 0xFFFF then [of_nat cp]
      else [of_nat ((cp - 0x10000) div 0x400 + 0xD800),
            of_nat ((cp - 0x10000) mod 0x400 + 0xDC00)])"

text \<open>
  \<open>Decode octets need s\<close> is the loop at the rest \<open>s\<close> of the string. Outside a multi-octet
  sequence \<open>need\<close> is 0 and \<open>octets\<close> is empty; inside one, \<open>octets\<close> are the octets
  read so far and \<open>need\<close> counts the escapes still to come.
\<close>

fun Decode :: "nat list \<Rightarrow> nat \<Rightarrow> jsstring \<Rightarrow> exn + jsstring" where
  "Decode octets 0 [] = Inr []"
| "Decode octets (Suc need) [] = Inl URIError"
| "Decode octets 0 (c # s) =
     (if c \<noteq> percent then (case Decode [] 0 s of Inl e \<Rightarrow> Inl e | Inr r \<Rightarrow> Inr (c # r))
      else (case s of
              h1 # h2 # s' \<Rightarrow>
                (case ParseHexOctet h1 h2 of
                   None \<Rightarrow> Inl URIError
                 | Some B \<Rightarrow>
                     if leading_ones B = 0
                     then (case Decode [] 0 s' of Inl e \<Rightarrow> Inl e | Inr r \<Rightarrow> Inr (of_nat B # r))
                     else if leading_ones B = 1 \<or> leading_ones B > 4 then Inl URIError
                     else Decode [B] (leading_ones B - 1) s')
            | _ \<Rightarrow> Inl URIError))"
| "Decode octets (Suc need) (c # s) =
     (case s of
        h1 # h2 # s' \<Rightarrow>
          if c \<noteq> percent then Inl URIError
          else (case ParseHexOctet h1 h2 of
                  None \<Rightarrow> Inl URIError
                | Some B \<Rightarrow>
                    if need > 0 then Decode (octets @ [B]) need s'
                    else if \<not> well_formed_utf8 (octets @ [B]) then Inl URIError
                    else (case Decode [] 0 s' of
                            Inl e \<Rightarrow> Inl e
                          | Inr r \<Rightarrow> Inr (UTF16EncodeCodePoint (utf8_code_point (octets @ [B])) @ r)))
      | _ \<Rightarrow> Inl URIError)"

definition decodeURIComponent :: "jsstring \<Rightarrow> exn + jsstring" where
  "decodeURIComponent s = Decode [] 0 s"

subsection \<open>\<^verbatim>\<open>parseFilenameFromDisposition\<close>\<close>

text \<open>
  \<^verbatim>\<open>match && match[1]\<close>: the group when there is a match and the group is not the empty
  string.
\<close>

definition truthy_group :: "jsstring option \<Rightarrow> jsstring option" where
  "truthy_group m = (case m of None \<Rightarrow> None | Some g \<Rightarrow> if g = [] then None else Some g)"

text \<open>
  The argument is \<open>None\<close> for null (the header is absent). The result is \<open>Inl\<close> for a thrown
  error, \<open>Inr None\<close> for null and \<open>Inr (Some f)\<close> for the string \<open>f\<close>.
\<close>

definition parseFilenameFromDisposition :: "jsstring option \<Rightarrow> exn + jsstring option" where
  "parseFilenameFromDisposition disposition =
     (case disposition of
        None \<Rightarrow> Inr None
      | Some d \<Rightarrow>
          if d = [] then Inr None
          else (case truthy_group (rx_extended d) of
                  Some g \<Rightarrow> (case decodeURIComponent g of Inl e \<Rightarrow> Inl e | Inr f \<Rightarrow> Inr (Some f))
                | None \<Rightarrow>
                    (case truthy_group (rx_quoted d) of
                       Some g \<Rightarrow> Inr (Some g)
                     | None \<Rightarrow>
                         (case truthy_group (rx_bare d) of
                            Some g \<Rightarrow> Inr (Some g)
                          | None \<Rightarrow> Inr None))))"

text \<open>
  Line 159: \<^verbatim>\<open>parseFilenameFromDisposition(disposition) || (defaultFormat === "xlsx" ?
  "report.xlsx" : "report.csv")\<close>. Null and the empty string are falsy.
\<close>

definition default_filename :: "jsstring \<Rightarrow> jsstring" where
  "default_filename defaultFormat =
     (if defaultFormat = js ''xlsx'' then js ''report.xlsx'' else js ''report.csv'')"

definition resolve_filename :: "jsstring \<Rightarrow> jsstring option \<Rightarrow> exn + jsstring" where
  "resolve_filename defaultFormat disposition =
     (case parseFilenameFromDisposition disposition of
        Inl e \<Rightarrow> Inl e
      | Inr None \<Rightarrow> Inr (default_filename defaultFormat)
      | Inr (Some f) \<Rightarrow> Inr (if f = [] then default_filename defaultFormat else f))"

subsection \<open>String operations used by the handlers\<close>

text \<open>
  \<^verbatim>\<open>String.prototype.trim\<close> removes white space and line terminators from both ends:
  TAB, LF, VT, FF, CR, space, no-break space, the Unicode space separators and U+2028, U+2029,
  U+FEFF.
\<close>

definition is_js_space :: "code_unit \<Rightarrow> bool" where
  "is_js_space c =
     (c \<in> {0x09, 0x0A, 0x0B, 0x0C, 0x0D, 0x20, 0xA0, 0x1680, 0x2028, 0x2029, 0x202F, 0x205F,
            0x3000, 0xFEFF}
      \<or> 0x2000 \<le> c \<and> c \<le> 0x200A)"

definition trim :: "jsstring \<Rightarrow> jsstring" where
  "trim s = rev (dropWhile is_js_space (rev (dropWhile is_js_space s)))"

text \<open>\<^verbatim>\<open>String(content).replace(/\n/g, "<br/>")\<close>\<close>

definition replace_newlines :: "jsstring \<Rightarrow> jsstring" where
  "replace_newlines s = concat (map (\<lambda>c. if c = 0x0A then js ''<br/>'' else [c]) s)"

text \<open>
  \<^verbatim>\<open>msg.toLowerCase().includes("download")\<close>. Only the letters A to Z have a lower-case form
  among the letters of "download", so the test is the search for the word with the ASCII letters
  of the message lowered.
\<close>

definition ascii_lower :: "code_unit \<Rightarrow> code_unit" where
  "ascii_lower c = (if 0x41 \<le> c \<and> c \<le> 0x5A then c + 0x20 else c)"

fun includes_str :: "jsstring \<Rightarrow> jsstring \<Rightarrow> bool" where
  "includes_str [] needle = (needle = [])"
| "includes_str (c # s) needle = (take (length needle) (c # s) = needle \<or> includes_str s needle)"

definition mentions_download :: "jsstring \<Rightarrow> bool" where
  "mentions_download msg = includes_str (map ascii_lower msg) (js ''download'')"

text \<open>A number in a template literal: its decimal digits.\<close>

fun decimal :: "nat \<Rightarrow> jsstring" where
  "decimal n = (if n < 10 then [of_nat (0x30 + n)]
                else decimal (n div 10) @ [of_nat (0x30 + n mod 10)])"

declare decimal.simps [simp del]

subsection \<open>The page\<close>

text \<open>
  The children of \<^verbatim>\<open>#chat-body\<close>: a message \<^verbatim>\<open>div\<close> with its class and the string
  assigned to its \<^verbatim>\<open>innerHTML\<close>, or the \<^verbatim>\<open>.report-action\<close> block, whose
  \<^verbatim>\<open>#reportDownloadBtn\<close> is displayed or not.
\<close>

datatype chat_node = Message (css_class: jsstring) (innerHTML: jsstring) | ReportAction bool

text \<open>\<^verbatim>\<open>#homeBtnReport\<close>: whether its \<^verbatim>\<open>display\<close> is \<^verbatim>\<open>inline-block\<close> rather
  than \<^verbatim>\<open>none\<close>, and whether it was put into the header or, without a header, into the
  body.\<close>

record home_button =
  hb_shown :: bool
  hb_in_header :: bool

text \<open>
  One overlay built by \<^verbatim>\<open>openCredentialModal\<close>, with the variables of its closure: whether
  the overlay is in the document, the format, the values of the two inputs, the text of
  \<^verbatim>\<open>#cred-error\<close>, the two buttons, and whether the click listeners are still registered.
\<close>

record modal =
  attached :: bool
  defaultFormat :: jsstring
  user_value :: jsstring
  pass_value :: jsstring
  error_text :: jsstring
  submit_disabled :: bool
  cancel_disabled :: bool
  submit_text :: jsstring
  submit_listener :: bool
  cancel_listener :: bool

text \<open>The element that has the focus, as far as the script moves it.\<close>

datatype element = Elsewhere | CredUser nat | CredPass nat

text \<open>An \<^verbatim>\<open>onSubmit\<close> suspended at its \<^verbatim>\<open>await\<close>: the overlay of its closure and the
  credentials it read.\<close>

record request =
  req_modal :: nat
  req_username :: jsstring
  req_password :: jsstring

text \<open>
  What leaves the page. \<open>Fetch u p f\<close> is the POST to \<^verbatim>\<open>/api/report\<close> with the JSON of
  \<^verbatim>\<open>{username: u, password: p, format: f}\<close>; \<open>CreateObjectURL n bytes\<close> is the call that
  returned the object URL number \<open>n\<close>; \<open>AnchorClick n name\<close> is the click on the anchor with
  that URL as \<^verbatim>\<open>href\<close> and \<open>name\<close> as \<^verbatim>\<open>download\<close>.
\<close>

datatype effect =
    ConsoleLog | ConsoleWarn | ConsoleError
  | Fetch jsstring jsstring jsstring
  | CreateObjectURL nat "nat list"
  | AnchorClick nat jsstring
  | RevokeObjectURL nat

record ui =
  isLanding :: bool
  header_present :: bool
  chatBody :: "chat_node list"
  userInput :: jsstring
  homeBtn :: "home_button option"
  modals :: "modal list"
  anchors :: "(nat \<times> jsstring) list"
  focus :: element
  pending :: "request list"
  effects :: "effect list"

text \<open>
  What the network gives back. A response carries \<^verbatim>\<open>res.ok\<close>, \<^verbatim>\<open>res.status\<close>, what
  \<^verbatim>\<open>res.json()\<close> and \<^verbatim>\<open>res.blob()\<close> settle to, and the \<^verbatim>\<open>content-disposition\<close>
  header. Of the JSON only the cases the script tells apart are kept: the promise rejects, the value
  is null, the value has a truthy \<^verbatim>\<open>error\<close> (\<open>JsonError e\<close>, with \<open>e\<close> the string that the
  page shows for it: the string itself, or the digits of a number), or anything else, a value with
  a falsy \<^verbatim>\<open>error\<close> included.
\<close>

datatype json_result = JsonReject | JsonNull | JsonOther | JsonError jsstring

record response =
  res_ok :: bool
  res_status :: nat
  res_json :: json_result
  res_blob :: "exn + nat list"
  res_disposition :: "jsstring option"

datatype outcome = Rejected exn | Responded response

subsection \<open>\<^verbatim>\<open>addMessage\<close> and \<^verbatim>\<open>ensureHomeButton\<close>\<close>

definition addMessage :: "jsstring \<Rightarrow> jsstring \<Rightarrow> ui \<Rightarrow> ui" where
  "addMessage content sender s =
     s\<lparr>chatBody := chatBody s @
          [Message (if sender = js ''bot'' then js ''bot-message'' else js ''user-message'')
                   (replace_newlines content)]\<rparr>"

definition ensureHomeButton :: "ui \<Rightarrow> ui" where
  "ensureHomeButton s =
     (case homeBtn s of
        Some hb \<Rightarrow> s
      | None \<Rightarrow> s\<lparr>homeBtn := Some \<lparr>hb_shown = False, hb_in_header = header_present s\<rparr>\<rparr>)"

text \<open>\<^verbatim>\<open>const hb = ensureHomeButton(); hb.style.display = ...\<close>\<close>

definition home_display :: "bool \<Rightarrow> ui \<Rightarrow> ui" where
  "home_display b s =
     (let s1 = ensureHomeButton s
      in s1\<lparr>homeBtn := map_option (\<lambda>hb. hb\<lparr>hb_shown := b\<rparr>) (homeBtn s1)\<rparr>)"

definition home_visible :: "ui \<Rightarrow> bool" where
  "home_visible s = (case homeBtn s of None \<Rightarrow> False | Some hb \<Rightarrow> hb_shown hb)"

subsection \<open>\<^verbatim>\<open>openCredentialModal\<close> and its handlers\<close>

text \<open>\<^verbatim>\<open>document.getElementById("cred-modal-overlay")\<close>: the first overlay in the document.\<close>

fun first_attached :: "modal list \<Rightarrow> nat option" where
  "first_attached [] = None"
| "first_attached (m # ms) = (if attached m then Some 0 else map_option Suc (first_attached ms))"

definition upd_modal :: "nat \<Rightarrow> (modal \<Rightarrow> modal) \<Rightarrow> ui \<Rightarrow> ui" where
  "upd_modal i f s = s\<lparr>modals := (modals s)[i := f (modals s ! i)]\<rparr>"

definition new_modal :: "jsstring \<Rightarrow> modal" where
  "new_modal fmt =
     \<lparr>attached = True, defaultFormat = fmt, user_value = [], pass_value = [], error_text = [],
      submit_disabled = False, cancel_disabled = False, submit_text = js ''Download'',
      submit_listener = True, cancel_listener = True\<rparr>"

text \<open>The result is the overlay returned and the page after the call.\<close>

definition openCredentialModal :: "jsstring \<Rightarrow> ui \<Rightarrow> nat \<times> ui" where
  "openCredentialModal fmt s =
     (case first_attached (modals s) of
        Some i \<Rightarrow> (i, s\<lparr>effects := effects s @ [ConsoleWarn]\<rparr>)
      | None \<Rightarrow>
          (length (modals s),
           s\<lparr>modals := modals s @ [new_modal fmt], focus := CredUser (length (modals s))\<rparr>))"

text \<open>
  \<^verbatim>\<open>closeModal\<close>: the click listeners go, the overlay leaves the document, and with it the
  focus if it was inside.
\<close>

definition closeModal :: "nat \<Rightarrow> ui \<Rightarrow> ui" where
  "closeModal i s =
     (let s1 = upd_modal i (\<lambda>m. m\<lparr>submit_listener := False, cancel_listener := False,
                                  attached := False\<rparr>) s
      in if focus s1 = CredUser i \<or> focus s1 = CredPass i then s1\<lparr>focus := Elsewhere\<rparr> else s1)"

definition onCancel :: "nat \<Rightarrow> ui \<Rightarrow> ui" where
  "onCancel i s =
     (let s1 = addMessage (js ''Report download cancelled.'') (js ''bot'') s;
          s2 = closeModal i s1;
          s3 = home_display True s2
      in s3\<lparr>isLanding := False\<rparr>)"

text \<open>\<^verbatim>\<open>usernameInput.focus()\<close> moves the focus when the input is in the document.\<close>

definition focus_username :: "nat \<Rightarrow> ui \<Rightarrow> ui" where
  "focus_username i s = (if attached (modals s ! i) then s\<lparr>focus := CredUser i\<rparr> else s)"

text \<open>
  \<^verbatim>\<open>onSubmit\<close> up to its first \<^verbatim>\<open>await\<close> (lines 117 to 139). A valid submission
  disables the two buttons, announces the request, sends it and suspends.
\<close>

definition onSubmit :: "nat \<Rightarrow> ui \<Rightarrow> ui" where
  "onSubmit i s =
     (let s1 = upd_modal i (\<lambda>m. m\<lparr>error_text := []\<rparr>) s;
          username = trim (user_value (modals s1 ! i));
          password = pass_value (modals s1 ! i)
      in if username = [] \<or> password = []
         then focus_username i
                (upd_modal i (\<lambda>m. m\<lparr>error_text :=
                                        js ''Please enter both username and password.''\<rparr>) s1)
         else (let s2 = upd_modal i (\<lambda>m. m\<lparr>submit_disabled := True, cancel_disabled := True,
                                               submit_text := js ''Downloading...''\<rparr>) s1;
                   s3 = addMessage (js ''Authenticating and preparing report...'') (js ''bot'') s2
               in s3\<lparr>effects := effects s3 @
                         [Fetch username password (defaultFormat (modals s3 ! i))],
                      pending := pending s3 @
                         [\<lparr>req_modal = i, req_username = username,
                           req_password = password\<rparr>]\<rparr>))"

text \<open>What both failure paths do at their end (lines 147 to 153 and 181 to 186).\<close>

definition reenable :: "nat \<Rightarrow> ui \<Rightarrow> ui" where
  "reenable i s =
     (let s1 = upd_modal i (\<lambda>m. m\<lparr>submit_disabled := False, cancel_disabled := False,
                                  submit_text := js ''Download''\<rparr>) s;
          s2 = home_display True s1
      in s2\<lparr>isLanding := False\<rparr>)"

text \<open>\<^verbatim>\<open>err.message || err\<close> inside a string concatenation.\<close>

definition error_text_of :: "exn \<Rightarrow> jsstring" where
  "error_text_of err =
     (if exn_message err \<noteq> [] then exn_message err else exn_name err)"

text \<open>The \<^verbatim>\<open>catch\<close> block (lines 177 to 187).\<close>

definition onSubmit_catch :: "nat \<Rightarrow> exn \<Rightarrow> ui \<Rightarrow> ui" where
  "onSubmit_catch i err s =
     (let s1 = s\<lparr>effects := effects s @ [ConsoleError]\<rparr>;
          s2 = upd_modal i (\<lambda>m. m\<lparr>error_text := js ''Network error: '' @ error_text_of err\<rparr>) s1;
          s3 = addMessage ([0x274C] @ js '' Failed to download report. See console for details.'')
                 (js ''bot'') s2
      in reenable i s3)"

text \<open>Reading \<^verbatim>\<open>body.error\<close> of null throws a TypeError; the message is the engine's.\<close>

definition null_body_error :: exn where
  "null_body_error =
     Exn (js ''TypeError'')
       (js ''Cannot read properties of null (reading '' @ [apostrophe] @ js ''error''
        @ [apostrophe] @ js '')'')"

text \<open>The number of the next object URL.\<close>

definition fresh_url :: "ui \<Rightarrow> nat" where
  "fresh_url s = length (filter (\<lambda>e. case e of CreateObjectURL n b \<Rightarrow> True | _ \<Rightarrow> False) (effects s))"

text \<open>
  Lines 161 to 176: the object URL, the anchor, the click, the release, and the success message.
  \<open>click\<close> is what the call \<^verbatim>\<open>a.click()\<close> into the browser does: it returns, or it throws
  and the \<^verbatim>\<open>catch\<close> block runs with the anchor still in the body.
\<close>

definition save_file :: "nat \<Rightarrow> nat list \<Rightarrow> jsstring \<Rightarrow> exn option \<Rightarrow> ui \<Rightarrow> ui" where
  "save_file i blob filename click s =
     (let url = fresh_url s;
          s1 = s\<lparr>effects := effects s @ [CreateObjectURL url blob],
                 anchors := anchors s @ [(url, filename)]\<rparr>
      in case click of
           Some err \<Rightarrow> onSubmit_catch i err s1
         | None \<Rightarrow>
             (let s2 = s1\<lparr>effects := effects s1 @ [AnchorClick url filename, RevokeObjectURL url],
                          anchors := remove1 (url, filename) (anchors s1)\<rparr>;
                  s3 = closeModal i s2;
                  s4 = addMessage ([0x2705] @ js '' Report '' @ [dquote] @ filename @ [dquote]
                                   @ js '' downloaded successfully!'') (js ''bot'') s3;
                  s5 = home_display True s4
              in s5\<lparr>isLanding := False\<rparr>))"

text \<open>Lines 141 to 155: the response is not \<^verbatim>\<open>ok\<close>.\<close>

definition http_error :: "nat \<Rightarrow> response \<Rightarrow> ui \<Rightarrow> ui" where
  "http_error i res s =
     (case res_json res of
        JsonNull \<Rightarrow> onSubmit_catch i null_body_error s
      | j \<Rightarrow>
          (let errMsg = (case j of
                           JsonError e \<Rightarrow> e
                         | _ \<Rightarrow> js ''Server returned '' @ decimal (res_status res));
               s1 = upd_modal i (\<lambda>m. m\<lparr>error_text := errMsg\<rparr>) s;
               s2 = addMessage ([0x26A0, 0xFE0F] @ js '' '' @ errMsg) (js ''bot'') s1
           in reenable i s2))"

text \<open>
  \<^verbatim>\<open>onSubmit\<close> from its first \<^verbatim>\<open>await\<close> on. Between the \<^verbatim>\<open>await\<close> of
  \<^verbatim>\<open>fetch\<close> and the one of \<^verbatim>\<open>res.json()\<close> or \<^verbatim>\<open>res.blob()\<close> the function changes
  nothing, so the resumption is one step, taken when the last promise has settled.
\<close>

definition onSubmit_resume :: "request \<Rightarrow> outcome \<Rightarrow> exn option \<Rightarrow> ui \<Rightarrow> ui" where
  "onSubmit_resume r out click s =
     (let i = req_modal r in
      case out of
        Rejected err \<Rightarrow> onSubmit_catch i err s
      | Responded res \<Rightarrow>
          if \<not> res_ok res then http_error i res s
          else (case res_blob res of
                  Inl err \<Rightarrow> onSubmit_catch i err s
                | Inr blob \<Rightarrow>
                    (case resolve_filename (defaultFormat (modals s ! i)) (res_disposition res) of
                       Inl err \<Rightarrow> onSubmit_catch i err s
                     | Inr filename \<Rightarrow> save_file i blob filename click s)))"

definition keyHandler :: "nat \<Rightarrow> jsstring \<Rightarrow> ui \<Rightarrow> ui" where
  "keyHandler i key s =
     (if key = js ''Enter'' then onSubmit i s
      else if key = js ''Escape'' then onCancel i s
      else s)"

subsection \<open>\<^verbatim>\<open>initReportChat\<close> and the handlers of the page\<close>

text \<open>
  \<^verbatim>\<open>chatBody.querySelector(".report-action")\<close> and
  \<^verbatim>\<open>document.getElementById("reportDownloadBtn")\<close> find the first such block of the chat.
  \<^verbatim>\<open>initReportChat\<close> empties the chat before it appends its block, so the chat never holds
  two, and the button that a click reaches is the button of that first block.
\<close>

fun remove_action :: "chat_node list \<Rightarrow> chat_node list" where
  "remove_action [] = []"
| "remove_action (ReportAction b # ns) = ns"
| "remove_action (n # ns) = n # remove_action ns"

fun hide_download :: "chat_node list \<Rightarrow> chat_node list" where
  "hide_download [] = []"
| "hide_download (ReportAction b # ns) = ReportAction False # ns"
| "hide_download (n # ns) = n # hide_download ns"

definition welcome_text :: jsstring where
  "welcome_text = [0xD83D, 0xDC4B] @ js '' Welcome to the Olyph AI Employee.''"

definition initReportChat :: "ui \<Rightarrow> ui" where
  "initReportChat s =
     (let s1 = s\<lparr>isLanding := True\<rparr>;
          s2 = home_display False s1;
          s3 = s2\<lparr>chatBody := []\<rparr>;
          s4 = addMessage welcome_text (js ''bot'') s3;
          s5 = s4\<lparr>chatBody := remove_action (chatBody s4)\<rparr>
      in s5\<lparr>chatBody := chatBody s5 @ [ReportAction True]\<rparr>)"

text \<open>What the click on the download button and the typed command share (lines 240 to 245 and
  260 to 264).\<close>

definition begin_download :: "ui \<Rightarrow> ui" where
  "begin_download s =
     (let s1 = addMessage (js ''Opening authentication modal...'') (js ''bot'') s;
          s2 = snd (openCredentialModal (js ''csv'') s1);
          s3 = home_display True s2
      in s3\<lparr>isLanding := False\<rparr>)"

definition download_click :: "ui \<Rightarrow> ui" where
  "download_click s = begin_download (s\<lparr>chatBody := hide_download (chatBody s)\<rparr>)"

definition help_text :: jsstring where
  "help_text = js ''Type '' @ [apostrophe] @ js ''download'' @ [apostrophe]
               @ js '' or click the Download Report button to begin.''"

definition send_click :: "ui \<Rightarrow> ui" where
  "send_click s =
     (let msg = trim (userInput s)
      in if msg = [] then s
         else (let s1 = addMessage msg (js ''user'') s;
                   s2 = s1\<lparr>userInput := []\<rparr>
               in if mentions_download msg
                  then begin_download (s2\<lparr>chatBody := hide_download (chatBody s2)\<rparr>)
                  else addMessage help_text (js ''bot'') s2))"

text \<open>
  The page after the \<^verbatim>\<open>DOMContentLoaded\<close> handler has run, on a document that has
  \<^verbatim>\<open>#chat-body\<close>, \<^verbatim>\<open>#sendBtn\<close> and \<^verbatim>\<open>#userInput\<close>, with or without a
  \<^verbatim>\<open>.chat-header\<close>.
\<close>

definition blank_page :: "bool \<Rightarrow> ui" where
  "blank_page hdr =
     \<lparr>isLanding = True, header_present = hdr, chatBody = [], userInput = [], homeBtn = None,
      modals = [], anchors = [], focus = Elsewhere, pending = [], effects = []\<rparr>"

definition page_loaded :: "bool \<Rightarrow> ui" where
  "page_loaded hdr =
     (let s1 = (blank_page hdr)\<lparr>effects := ConsoleLog # (if hdr then [] else [ConsoleWarn])\<rparr>;
          s2 = initReportChat s1
      in s2\<lparr>effects := effects s2 @ [ConsoleLog]\<rparr>)"

subsection \<open>Events\<close>

text \<open>
  What the user and the network can do. A click reaches a button that is displayed and not
  disabled, and runs the listeners still registered on it; typing and key presses in the dialog go
  to the overlay that is in the document. \<open>Settle k out click\<close> resumes the \<open>k\<close>-th suspended
  \<^verbatim>\<open>onSubmit\<close> with the outcome \<open>out\<close> of its request.
\<close>

datatype event =
    ClickDownload
  | TypeMessage jsstring
  | ClickSend
  | KeyPressInput jsstring bool
  | ClickHome
  | TypeUsername jsstring
  | TypePassword jsstring
  | ClickSubmit
  | ClickCancel
  | KeyDown jsstring
  | Settle nat outcome "exn option"

definition download_shown :: "ui \<Rightarrow> bool" where
  "download_shown s = (ReportAction True \<in> set (chatBody s))"

fun step :: "event \<Rightarrow> ui \<Rightarrow> ui" where
  "step ClickDownload s = (if download_shown s then download_click s else s)"
| "step (TypeMessage t) s = s\<lparr>userInput := t\<rparr>"
| "step ClickSend s = send_click s"
| "step (KeyPressInput key shift) s = (if key = js ''Enter'' \<and> \<not> shift then send_click s else s)"
| "step ClickHome s = (if home_visible s then initReportChat s else s)"
| "step (TypeUsername t) s =
     (case first_attached (modals s) of
        None \<Rightarrow> s
      | Some i \<Rightarrow> (upd_modal i (\<lambda>m. m\<lparr>user_value := t\<rparr>) s)\<lparr>focus := CredUser i\<rparr>)"
| "step (TypePassword t) s =
     (case first_attached (modals s) of
        None \<Rightarrow> s
      | Some i \<Rightarrow> (upd_modal i (\<lambda>m. m\<lparr>pass_value := t\<rparr>) s)\<lparr>focus := CredPass i\<rparr>)"
| "step ClickSubmit s =
     (case first_attached (modals s) of
        None \<Rightarrow> s
      | Some i \<Rightarrow> if submit_disabled (modals s ! i) \<or> \<not> submit_listener (modals s ! i) then s
                  else onSubmit i s)"
| "step ClickCancel s =
     (case first_attached (modals s) of
        None \<Rightarrow> s
      | Some i \<Rightarrow> if cancel_disabled (modals s ! i) \<or> \<not> cancel_listener (modals s ! i) then s
                  else onCancel i s)"
| "step (KeyDown key) s =
     (case first_attached (modals s) of
        None \<Rightarrow> s
      | Some i \<Rightarrow> keyHandler i key s)"
| "step (Settle k out click) s =
     (if k < length (pending s)
      then onSubmit_resume (pending s ! k) out click
             (s\<lparr>pending := take k (pending s) @ drop (Suc k) (pending s)\<rparr>)
      else s)"

definition run :: "event list \<Rightarrow> ui \<Rightarrow> ui" where
  "run evs s = foldl (\<lambda>s e. step e s) s evs"

subsection \<open>What a message shows\<close>

text \<open>
  \<^verbatim>\<open>addMessage\<close> assigns to \<^verbatim>\<open>innerHTML\<close>, so the browser parses the string as HTML.
  Of the parser only what the script itself relies on is modelled: the tag \<^verbatim>\<open><br/>\<close> becomes
  a line-break element, and a code unit that cannot start markup becomes text. The result is
  \<open>None\<close> where the string has any other \<^verbatim>\<open><\<close>, a \<^verbatim>\<open>&\<close>, or a NUL or CR (which the
  parser rewrites): the children are then not determined by this model.
\<close>

datatype shown = Chr code_unit | LineBreak

fun html_children :: "jsstring \<Rightarrow> shown list option" where
  "html_children [] = Some []"
| "html_children (c # s) =
     (if c = 0x3C
      then (if take 4 s = js ''br/>'' then map_option ((#) LineBreak) (html_children (drop 4 s))
            else None)
      else if c = 0x26 \<or> c = 0x00 \<or> c = 0x0D then None
      else map_option ((#) (Chr c)) (html_children s))"

text \<open>The content shown as its literal text, a line feed being a line break.\<close>

definition literal_text :: "jsstring \<Rightarrow> shown list" where
  "literal_text content = map (\<lambda>c. if c = 0x0A then LineBreak else Chr c) content"

text \<open>The children of the message that \<^verbatim>\<open>addMessage(content, sender)\<close> appends.\<close>

definition message_shows :: "jsstring \<Rightarrow> shown list option" where
  "message_shows content = html_children (replace_newlines content)"

text \<open>At most one overlay is in the document.\<close>

definition single_overlay :: "ui \<Rightarrow> bool" where
  "single_overlay s = (length (filter attached (modals s)) \<le> 1)"

text \<open>The object URLs created and released in a trace.\<close>

fun created :: "effect list \<Rightarrow> nat list" where
  "created [] = []"
| "created (CreateObjectURL n b # es) = n # created es"
| "created (e # es) = created es"

fun released :: "effect list \<Rightarrow> nat list" where
  "released [] = []"
| "released (RevokeObjectURL n # es) = n # released es"
| "released (e # es) = released es"

fun fetches :: "effect list \<Rightarrow> nat" where
  "fetches [] = 0"
| "fetches (Fetch u p f # es) = Suc (fetches es)"
| "fetches (e # es) = fetches es"


text \<open>
  The object URLs created so far are numbered from 0 in the order of their creation, and only
  created ones have been released.
\<close>

definition urls_numbered :: "ui \<Rightarrow> bool" where
  "urls_numbered s =
     (created (effects s) = [0..<fresh_url s]
      \<and> set (released (effects s)) \<subseteq> set (created (effects s)))"

section \<open>Facts about the operations on the page\<close>

subsection \<open>The Home button\<close>

lemma home_display_eq:
  "home_display b s =
     s\<lparr>homeBtn := Some \<lparr>hb_shown = b,
          hb_in_header = (case homeBtn s of None \<Rightarrow> header_present s | Some hb \<Rightarrow> hb_in_header hb)\<rparr>\<rparr>"
  by (cases "homeBtn s") (simp_all add: home_display_def ensureHomeButton_def Let_def)

lemma home_visible_display [simp]: "home_visible (home_display b s) = b"
  by (simp add: home_display_eq home_visible_def)

lemma isLanding_display [simp]: "isLanding (home_display b s) = isLanding s"
  by (simp add: home_display_eq)

lemma home_visible_isLanding_upd [simp]: "home_visible (s\<lparr>isLanding := b\<rparr>) = home_visible s"
  by (simp add: home_visible_def)

lemma upd_modal_landing [simp]:
  "isLanding (upd_modal i f s) = isLanding s" "home_visible (upd_modal i f s) = home_visible s"
  by (simp_all add: upd_modal_def home_visible_def)

subsection \<open>The overlay in the document\<close>

lemma filter_update_le:
  "(i < length xs \<Longrightarrow> P x \<Longrightarrow> P (xs ! i)) \<Longrightarrow>
     length (filter P (xs[i := x])) \<le> length (filter P xs)"
proof (induction xs arbitrary: i)
  case Nil
  then show ?case by simp
next
  case (Cons a xs)
  show ?case
  proof (cases i)
    case 0
    then show ?thesis using Cons.prems by auto
  next
    case (Suc j)
    then show ?thesis using Cons.IH[of j] Cons.prems by auto
  qed
qed

lemma filter_update_clear:
  "i < length xs \<Longrightarrow> P (xs ! i) \<Longrightarrow> \<not> P x \<Longrightarrow>
     Suc (length (filter P (xs[i := x]))) = length (filter P xs)"
proof (induction xs arbitrary: i)
  case Nil
  then show ?case by simp
next
  case (Cons a xs)
  show ?case
  proof (cases i)
    case 0
    then show ?thesis using Cons.prems by auto
  next
    case (Suc j)
    then show ?thesis using Cons.IH[of j] Cons.prems by auto
  qed
qed

lemma first_attached_None: "first_attached ms = None \<longleftrightarrow> filter attached ms = []"
  by (induction ms) auto

lemma first_attached_Some:
  "first_attached ms = Some i \<Longrightarrow> i < length ms \<and> attached (ms ! i)"
  by (induction ms arbitrary: i) (auto split: if_splits)

subsection \<open>Closing and cancelling\<close>

lemma closeModal_fields:
  "modals (closeModal i s) =
     (modals s)[i := (modals s ! i)\<lparr>submit_listener := False, cancel_listener := False,
                                     attached := False\<rparr>]"
  "chatBody (closeModal i s) = chatBody s"
  "pending (closeModal i s) = pending s"
  "effects (closeModal i s) = effects s"
  "isLanding (closeModal i s) = isLanding s"
  "homeBtn (closeModal i s) = homeBtn s"
  by (simp_all add: closeModal_def Let_def upd_modal_def)

lemma onCancel_eq:
  "onCancel i s =
     (home_display True
        (closeModal i (addMessage (js ''Report download cancelled.'') (js ''bot'') s)))
       \<lparr>isLanding := False\<rparr>"
  by (simp add: onCancel_def Let_def)

lemma onCancel_fields:
  "modals (onCancel i s) =
     (modals s)[i := (modals s ! i)\<lparr>submit_listener := False, cancel_listener := False,
                                     attached := False\<rparr>]"
  "chatBody (onCancel i s) =
     chatBody s @ [Message (js ''bot-message'') (js ''Report download cancelled.'')]"
  "pending (onCancel i s) = pending s"
  "effects (onCancel i s) = effects s"
  "isLanding (onCancel i s) = False"
  "home_visible (onCancel i s) = True"
  by (simp_all add: onCancel_eq home_display_eq closeModal_fields home_visible_def)
     (simp_all add: addMessage_def replace_newlines_def js_def)

subsection \<open>What the handlers add to the trace\<close>

lemma created_append [simp]: "created (es @ fs) = created es @ created fs"
  by (induction es rule: created.induct) simp_all

lemma released_append [simp]: "released (es @ fs) = released es @ released fs"
  by (induction es rule: released.induct) simp_all

lemma count_created:
  "length (filter (\<lambda>e. case e of CreateObjectURL n b \<Rightarrow> True | _ \<Rightarrow> False) es)
     = length (created es)"
  by (induction es rule: created.induct) simp_all

lemma fresh_url_created: "fresh_url s = length (created (effects s))"
  by (simp add: fresh_url_def count_created)

lemma effects_reenable [simp]: "effects (reenable i s) = effects s"
  by (simp add: reenable_def Let_def home_display_eq upd_modal_def)

lemma effects_catch [simp]: "effects (onSubmit_catch i err s) = effects s @ [ConsoleError]"
  by (simp add: onSubmit_catch_def Let_def addMessage_def upd_modal_def)

lemma effects_http_error:
  "effects (http_error i res s) =
     (if res_json res = JsonNull then effects s @ [ConsoleError] else effects s)"
  by (cases "res_json res") (simp_all add: http_error_def Let_def addMessage_def upd_modal_def)

lemma effects_save_file:
  "effects (save_file i blob name None s) =
     effects s @ [CreateObjectURL (fresh_url s) blob, AnchorClick (fresh_url s) name,
                  RevokeObjectURL (fresh_url s)]"
  by (simp add: save_file_def Let_def home_display_eq addMessage_def closeModal_fields)

lemma effects_save_file_throws:
  "effects (save_file i blob name (Some err) s) =
     effects s @ [CreateObjectURL (fresh_url s) blob, ConsoleError]"
  by (simp add: save_file_def Let_def)

lemma effects_onSubmit:
  "effects (onSubmit i s) = effects s \<or> (\<exists>u p f. effects (onSubmit i s) = effects s @ [Fetch u p f])"
  by (simp add: onSubmit_def Let_def upd_modal_def addMessage_def focus_username_def)

lemma effects_init [simp]: "effects (initReportChat s) = effects s"
  by (simp add: initReportChat_def Let_def addMessage_def home_display_eq)

lemma effects_begin_download:
  "effects (begin_download s) = effects s \<or> effects (begin_download s) = effects s @ [ConsoleWarn]"
  by (cases "first_attached (modals s)")
     (simp_all add: begin_download_def Let_def home_display_eq openCredentialModal_def addMessage_def)

lemma error_text_catch:
  "i < length (modals s) \<Longrightarrow>
     error_text (modals (onSubmit_catch i err s) ! i) = js ''Network error: '' @ error_text_of err"
  by (simp add: onSubmit_catch_def Let_def reenable_def home_display_eq upd_modal_def addMessage_def)

section \<open>The filename resolver\<close>

subsection \<open>What the regular expressions match\<close>

text \<open>
  The group of \<^verbatim>\<open>lit([^stop]+)\<close> at the start of a string: the string is the literal, then
  the group, which is a non-empty run without \<open>stop\<close> that ends at a \<open>stop\<close> or at the end
  of the string. For \<^verbatim>\<open>lit([^q]+)q\<close> the run ends at a \<open>q\<close>. A search returns the group
  at the leftmost start position that has one.
\<close>

lemma group_open_iff:
  "group_open lit stop s = Some g \<longleftrightarrow>
     (\<exists>rest. s = lit @ g @ rest \<and> g \<noteq> [] \<and> stop \<notin> set g \<and> (rest = [] \<or> hd rest = stop))"
proof
  assume h: "group_open lit stop s = Some g"
  then have p: "take (length lit) s = lit" and g: "g = takeWhile (\<lambda>c. c \<noteq> stop) (drop (length lit) s)"
    and ne: "g \<noteq> []"
    by (auto simp: group_open_def Let_def split: if_splits)
  let ?r = "dropWhile (\<lambda>c. c \<noteq> stop) (drop (length lit) s)"
  have "s = lit @ g @ ?r"
    using p g by (metis append_take_drop_id takeWhile_dropWhile_id)
  moreover have "stop \<notin> set g" using g by (auto dest: set_takeWhileD)
  moreover have "?r = [] \<or> hd ?r = stop"
    using hd_dropWhile[of "\<lambda>c. c \<noteq> stop" "drop (length lit) s"] by auto
  ultimately show "\<exists>rest. s = lit @ g @ rest \<and> g \<noteq> [] \<and> stop \<notin> set g \<and> (rest = [] \<or> hd rest = stop)"
    using ne by blast
next
  assume "\<exists>rest. s = lit @ g @ rest \<and> g \<noteq> [] \<and> stop \<notin> set g \<and> (rest = [] \<or> hd rest = stop)"
  then obtain rest where s: "s = lit @ g @ rest" and ne: "g \<noteq> []" and ns: "stop \<notin> set g"
    and r: "rest = [] \<or> hd rest = stop" by blast
  have "takeWhile (\<lambda>c. c \<noteq> stop) (g @ rest) = g"
  proof (cases rest)
    case Nil
    then show ?thesis using ns by (auto simp: takeWhile_eq_all_conv)
  next
    case (Cons a list)
    then have "a = stop" using r by simp
    then show ?thesis using ns Cons by (auto simp: takeWhile_tail)
  qed
  then show "group_open lit stop s = Some g"
    using s ne by (simp add: group_open_def)
qed

lemma group_closed_iff:
  "group_closed lit q s = Some g \<longleftrightarrow>
     (\<exists>rest. s = lit @ g @ q # rest \<and> g \<noteq> [] \<and> q \<notin> set g)"
proof
  assume h: "group_closed lit q s = Some g"
  let ?r = "dropWhile (\<lambda>c. c \<noteq> q) (drop (length lit) s)"
  from h have p: "take (length lit) s = lit" and g: "g = takeWhile (\<lambda>c. c \<noteq> q) (drop (length lit) s)"
    and ne: "g \<noteq> []" and rn: "?r \<noteq> []"
    by (auto simp: group_closed_def Let_def split: if_splits)
  have "s = lit @ g @ ?r"
    using p g by (metis append_take_drop_id takeWhile_dropWhile_id)
  moreover have "q \<notin> set g" using g by (auto dest: set_takeWhileD)
  moreover have "hd ?r = q"
    using hd_dropWhile[of "\<lambda>c. c \<noteq> q" "drop (length lit) s"] rn by auto
  then have "?r = q # tl ?r" using rn by (metis list.collapse)
  ultimately show "\<exists>rest. s = lit @ g @ q # rest \<and> g \<noteq> [] \<and> q \<notin> set g"
    using ne by metis
next
  assume "\<exists>rest. s = lit @ g @ q # rest \<and> g \<noteq> [] \<and> q \<notin> set g"
  then obtain rest where s: "s = lit @ g @ q # rest" and ne: "g \<noteq> []" and ns: "q \<notin> set g"
    by blast
  have "takeWhile (\<lambda>c. c \<noteq> q) (g @ q # rest) = g" using ns by (auto simp: takeWhile_tail)
  moreover have "dropWhile (\<lambda>c. c \<noteq> q) (g @ q # rest) = q # rest"
    using ns by (auto simp: dropWhile_append3)
  ultimately show "group_closed lit q s = Some g"
    using s ne by (simp add: group_closed_def)
qed

lemma first_match_None:
  "first_match m s = None \<longleftrightarrow> (\<forall>k \<le> length s. m (drop k s) = None)"
proof (induction s)
  case Nil
  then show ?case by simp
next
  case (Cons c s)
  show ?case
  proof (cases "m (c # s)")
    case None
    have "(\<forall>k \<le> length (c # s). m (drop k (c # s)) = None) \<longleftrightarrow> (\<forall>k \<le> length s. m (drop k s) = None)"
    proof
      assume a: "\<forall>k \<le> length (c # s). m (drop k (c # s)) = None"
      show "\<forall>k \<le> length s. m (drop k s) = None"
      proof (intro allI impI)
        fix k assume "k \<le> length s"
        then have "m (drop (Suc k) (c # s)) = None" using a by (metis Suc_le_mono length_Cons)
        then show "m (drop k s) = None" by simp
      qed
    next
      assume a: "\<forall>k \<le> length s. m (drop k s) = None"
      show "\<forall>k \<le> length (c # s). m (drop k (c # s)) = None"
      proof (intro allI impI)
        fix k assume k: "k \<le> length (c # s)"
        show "m (drop k (c # s)) = None"
        proof (cases k)
          case 0 then show ?thesis using None by simp
        next
          case (Suc j) then show ?thesis using a k by simp
        qed
      qed
    qed
    then show ?thesis using None Cons by simp
  next
    case (Some g)
    then have "\<not> (\<forall>k \<le> length (c # s). m (drop k (c # s)) = None)"
      by (metis drop0 le0 option.distinct(1))
    then show ?thesis using Some by simp
  qed
qed

lemma first_match_Some:
  "first_match m s = Some g \<longleftrightarrow>
     (\<exists>k \<le> length s. m (drop k s) = Some g \<and> (\<forall>j < k. m (drop j s) = None))"
proof (induction s)
  case Nil
  then show ?case by simp
next
  case (Cons c s)
  show ?case
  proof (cases "m (c # s)")
    case None
    have "(\<exists>k \<le> length (c # s). m (drop k (c # s)) = Some g \<and> (\<forall>j < k. m (drop j (c # s)) = None))
          \<longleftrightarrow> (\<exists>k \<le> length s. m (drop k s) = Some g \<and> (\<forall>j < k. m (drop j s) = None))"
      (is "?L \<longleftrightarrow> ?R")
    proof
      assume ?L
      then obtain k where k: "k \<le> length (c # s)" "m (drop k (c # s)) = Some g"
        "\<forall>j < k. m (drop j (c # s)) = None" by blast
      then obtain k' where k': "k = Suc k'" using None by (cases k) auto
      have "\<forall>j < k'. m (drop j s) = None"
      proof (intro allI impI)
        fix j assume "j < k'"
        then have "m (drop (Suc j) (c # s)) = None" using k(3) k' by blast
        then show "m (drop j s) = None" by simp
      qed
      then show ?R using k k' by auto
    next
      assume ?R
      then obtain k where k: "k \<le> length s" "m (drop k s) = Some g"
        "\<forall>j < k. m (drop j s) = None" by blast
      have "\<forall>j < Suc k. m (drop j (c # s)) = None"
      proof (intro allI impI)
        fix j assume j: "j < Suc k"
        show "m (drop j (c # s)) = None"
        proof (cases j)
          case 0 then show ?thesis using None by simp
        next
          case (Suc i) then show ?thesis using k(3) j by simp
        qed
      qed
      moreover have "Suc k \<le> length (c # s)" "m (drop (Suc k) (c # s)) = Some g" using k by auto
      ultimately show ?L by blast
    qed
    then show ?thesis using None Cons by simp
  next
    case (Some h)
    have "(\<exists>k \<le> length (c # s). m (drop k (c # s)) = Some g \<and> (\<forall>j < k. m (drop j (c # s)) = None))
          \<longleftrightarrow> h = g" (is "?L \<longleftrightarrow> _")
    proof
      assume ?L
      then obtain k where k: "m (drop k (c # s)) = Some g" "\<forall>j < k. m (drop j (c # s)) = None"
        by blast
      have "k = 0"
      proof (rule ccontr)
        assume "k \<noteq> 0"
        then have "m (drop 0 (c # s)) = None" using k(2) by blast
        then show False using Some by simp
      qed
      then show "h = g" using k Some by simp
    next
      assume "h = g"
      then have "m (drop 0 (c # s)) = Some g \<and> (\<forall>j < (0::nat). m (drop j (c # s)) = None)"
        using Some by simp
      then show ?L by blast
    qed
    then show ?thesis using Some by simp
  qed
qed

subsection \<open>The precedence of the three forms\<close>

text \<open>
  A group is never empty and the empty header has no match, so the tests of the source on the
  header and on \<^verbatim>\<open>match[1]\<close> never change the outcome of the three searches.
\<close>

lemma first_match_nonempty:
  assumes "\<And>t h. m t = Some h \<Longrightarrow> h \<noteq> []" and "first_match m s = Some g"
  shows "g \<noteq> []"
  using assms first_match_Some[of m s g] by blast

lemma group_open_nonempty: "group_open lit stop t = Some h \<Longrightarrow> h \<noteq> []"
  by (auto simp: group_open_iff)

lemma group_closed_nonempty: "group_closed lit q t = Some h \<Longrightarrow> h \<noteq> []"
  using group_closed_iff by blast

lemma rx_extended_nonempty: "rx_extended d = Some g \<Longrightarrow> g \<noteq> []"
  unfolding rx_extended_def by (rule first_match_nonempty[OF group_open_nonempty])

lemma rx_quoted_nonempty: "rx_quoted d = Some g \<Longrightarrow> g \<noteq> []"
  unfolding rx_quoted_def by (rule first_match_nonempty[OF group_closed_nonempty])

lemma rx_bare_nonempty: "rx_bare d = Some g \<Longrightarrow> g \<noteq> []"
  unfolding rx_bare_def by (rule first_match_nonempty[OF group_open_nonempty])

lemma truthy_rx_extended: "truthy_group (rx_extended d) = rx_extended d"
  by (cases "rx_extended d") (auto simp: truthy_group_def dest: rx_extended_nonempty)

lemma truthy_rx_quoted: "truthy_group (rx_quoted d) = rx_quoted d"
  by (cases "rx_quoted d") (auto simp: truthy_group_def dest: rx_quoted_nonempty)

lemma truthy_rx_bare: "truthy_group (rx_bare d) = rx_bare d"
  by (cases "rx_bare d") (auto simp: truthy_group_def dest: rx_bare_nonempty)

lemma group_open_Nil: "lit \<noteq> [] \<Longrightarrow> group_open lit stop [] = None"
  by (auto simp: group_open_def)

lemma group_closed_Nil: "group_closed lit q [] = None"
  by (auto simp: group_closed_def)

lemma rx_empty: "rx_extended [] = None" "rx_quoted [] = None" "rx_bare [] = None"
  by (simp_all add: rx_extended_def rx_quoted_def rx_bare_def group_open_Nil group_closed_Nil js_def)

lemma parse_unfold:
  "parseFilenameFromDisposition (Some d) =
     (case rx_extended d of
        Some g \<Rightarrow> (case decodeURIComponent g of Inl e \<Rightarrow> Inl e | Inr f \<Rightarrow> Inr (Some f))
      | None \<Rightarrow> (case rx_quoted d of Some g \<Rightarrow> Inr (Some g)
                 | None \<Rightarrow> (case rx_bare d of Some g \<Rightarrow> Inr (Some g) | None \<Rightarrow> Inr None)))"
  by (cases "d = []")
     (simp_all add: parseFilenameFromDisposition_def truthy_rx_extended truthy_rx_quoted
        truthy_rx_bare rx_empty split: option.splits)

text \<open>
  A name that the resolver returns is never the empty string, so line 159 takes the default only
  for null.
\<close>

lemma UTF16EncodeCodePoint_nonempty: "UTF16EncodeCodePoint cp \<noteq> []"
  by (simp add: UTF16EncodeCodePoint_def)

lemma Decode_nonempty:
  "Decode octets need s = Inr r \<Longrightarrow> need > 0 \<or> s \<noteq> [] \<Longrightarrow> r \<noteq> []"
proof (induction s arbitrary: octets need r rule: length_induct)
  case (1 s)
  show ?case
  proof (cases s)
    case Nil
    then show ?thesis using "1.prems" by (cases need) simp_all
  next
    case (Cons c t)
    show ?thesis
    proof (cases need)
      case 0
      show ?thesis
      proof (cases "c = percent")
        case False
        then show ?thesis using "1.prems"(1) Cons 0 by (auto split: sum.splits)
      next
        case True
        then obtain h1 h2 s' where t: "t = h1 # h2 # s'"
          using "1.prems"(1) Cons 0 by (cases t; cases "tl t") auto
        obtain B where B: "ParseHexOctet h1 h2 = Some B"
          using "1.prems"(1) Cons 0 True t by (cases "ParseHexOctet h1 h2") auto
        show ?thesis
        proof (cases "leading_ones B = 0")
          case z: True
          then show ?thesis using "1.prems"(1) Cons 0 True t B by (auto split: sum.splits)
        next
          case nz: False
          have ok: "\<not> (leading_ones B = 1 \<or> leading_ones B > 4)"
            using "1.prems"(1) Cons 0 True t B nz by (auto split: if_splits)
          have d: "Decode [B] (leading_ones B - 1) s' = Inr r"
            using "1.prems"(1) Cons 0 True t B nz ok by simp
          have "length s' < length s" using Cons t by simp
          moreover have "leading_ones B - 1 > 0" using nz ok by simp
          ultimately show ?thesis using "1.IH" d by blast
        qed
      qed
    next
      case (Suc n)
      obtain h1 h2 s' where t: "t = h1 # h2 # s'"
        using "1.prems"(1) Cons Suc by (cases t; cases "tl t") auto
      have p: "c = percent"
        using "1.prems"(1) Cons Suc t by (auto split: if_splits)
      obtain B where B: "ParseHexOctet h1 h2 = Some B"
        using "1.prems"(1) Cons Suc t p by (cases "ParseHexOctet h1 h2") auto
      show ?thesis
      proof (cases "n > 0")
        case True
        then have d: "Decode (octets @ [B]) n s' = Inr r"
          using "1.prems"(1) Cons Suc t p B by simp
        have "length s' < length s" using Cons t by simp
        then show ?thesis using "1.IH" d True by blast
      next
        case False
        then show ?thesis
          using "1.prems"(1) Cons Suc t p B
          by (auto simp: UTF16EncodeCodePoint_nonempty split: if_splits sum.splits)
      qed
    qed
  qed
qed

lemma decodeURIComponent_nonempty:
  "decodeURIComponent g = Inr f \<Longrightarrow> g \<noteq> [] \<Longrightarrow> f \<noteq> []"
  unfolding decodeURIComponent_def by (rule Decode_nonempty) auto

lemma parse_nonempty: "parseFilenameFromDisposition h = Inr (Some f) \<Longrightarrow> f \<noteq> []"
proof (cases h)
  case None
  then show "parseFilenameFromDisposition h = Inr (Some f) \<Longrightarrow> f \<noteq> []"
    by (simp add: parseFilenameFromDisposition_def)
next
  case (Some d)
  assume a: "parseFilenameFromDisposition h = Inr (Some f)"
  show "f \<noteq> []"
  proof (cases "rx_extended d")
    case x: (Some g)
    then show ?thesis
      using a Some rx_extended_nonempty[OF x] decodeURIComponent_nonempty[of g f]
      by (auto simp: parse_unfold split: sum.splits)
  next
    case x: None
    show ?thesis
    proof (cases "rx_quoted d")
      case q: (Some g)
      then show ?thesis using a Some x rx_quoted_nonempty[OF q] by (simp add: parse_unfold)
    next
      case q: None
      show ?thesis
      proof (cases "rx_bare d")
        case b: (Some g)
        then show ?thesis using a Some x q rx_bare_nonempty[OF b] by (simp add: parse_unfold)
      next
        case b: None
        then show ?thesis using a Some x q by (simp add: parse_unfold)
      qed
    qed
  qed
qed

lemma resolve_keeps_name:
  "parseFilenameFromDisposition h = Inr (Some f) \<Longrightarrow> resolve_filename fmt h = Inr f"
  using parse_nonempty[of h f] by (simp add: resolve_filename_def)

text \<open>
  The order of the three forms. The first that matches decides: a match of the extended form
  \<^verbatim>\<open>filename*=UTF-8''...\<close> gives what \<^verbatim>\<open>decodeURIComponent\<close> makes of the value, be it
  a string or a thrown error; otherwise a match of the quoted form gives the value as it stands;
  otherwise a match of the bare form gives the value up to the next semicolon as it stands;
  otherwise, and for an absent header, the result is null, and the transaction then takes
  \<^verbatim>\<open>report.xlsx\<close> for the format "xlsx" and \<^verbatim>\<open>report.csv\<close> for any other; a name that
  was resolved is used as it is.
\<close>

lemma filename_precedence:
  "parseFilenameFromDisposition None = Inr None
   \<and> (rx_extended d = Some g \<longrightarrow>
        parseFilenameFromDisposition (Some d) =
          (case decodeURIComponent g of Inl e \<Rightarrow> Inl e | Inr f \<Rightarrow> Inr (Some f)))
   \<and> (rx_extended d = None \<and> rx_quoted d = Some g \<longrightarrow>
        parseFilenameFromDisposition (Some d) = Inr (Some g))
   \<and> (rx_extended d = None \<and> rx_quoted d = None \<and> rx_bare d = Some g \<longrightarrow>
        parseFilenameFromDisposition (Some d) = Inr (Some g))
   \<and> (rx_extended d = None \<and> rx_quoted d = None \<and> rx_bare d = None \<longrightarrow>
        parseFilenameFromDisposition (Some d) = Inr None)
   \<and> (parseFilenameFromDisposition h = Inr None \<longrightarrow>
        resolve_filename fmt h =
          Inr (if fmt = js ''xlsx'' then js ''report.xlsx'' else js ''report.csv''))
   \<and> (parseFilenameFromDisposition h = Inr (Some f) \<longrightarrow> resolve_filename fmt h = Inr f)"
  by (simp add: parse_unfold resolve_keeps_name)
     (simp add: parseFilenameFromDisposition_def resolve_filename_def default_filename_def)

lemma filename_precedence_examples:
  "parseFilenameFromDisposition
      (Some (js ''attachment; filename='' @ [dquote] @ js ''plain.csv'' @ [dquote]
             @ js ''; filename*=UTF-8'' @ [apostrophe, apostrophe] @ js ''r%C3%A9sum%C3%A9.csv''))
     = Inr (Some [0x72, 0xE9, 0x73, 0x75, 0x6D, 0xE9, 0x2E, 0x63, 0x73, 0x76])
   \<and> parseFilenameFromDisposition
      (Some (js ''attachment; filename='' @ [dquote] @ js ''a;b.csv'' @ [dquote]))
     = Inr (Some (js ''a;b.csv''))
   \<and> parseFilenameFromDisposition (Some (js ''attachment; filename=report-7.csv; size=3''))
     = Inr (Some (js ''report-7.csv''))
   \<and> parseFilenameFromDisposition (Some (js ''inline'')) = Inr None
   \<and> resolve_filename (js ''xlsx'') (Some (js ''inline'')) = Inr (js ''report.xlsx'')
   \<and> resolve_filename (js ''csv'') None = Inr (js ''report.csv'')
   \<and> resolve_filename (js ''csv'') (Some (js ''attachment; filename=report-7.csv; size=3''))
     = Inr (js ''report-7.csv'')"
proof -
  let ?d1 = "js ''attachment; filename='' @ [dquote] @ js ''plain.csv'' @ [dquote]
             @ js ''; filename*=UTF-8'' @ [apostrophe, apostrophe] @ js ''r%C3%A9sum%C3%A9.csv''"
  let ?d2 = "js ''attachment; filename='' @ [dquote] @ js ''a;b.csv'' @ [dquote]"
  let ?d3 = "js ''attachment; filename=report-7.csv; size=3''"
  let ?d4 = "js ''inline''"
  have x1: "rx_extended ?d1 = Some (js ''r%C3%A9sum%C3%A9.csv'')" by code_simp
  have v1: "decodeURIComponent (js ''r%C3%A9sum%C3%A9.csv'')
              = Inr [0x72, 0xE9, 0x73, 0x75, 0x6D, 0xE9, 0x2E, 0x63, 0x73, 0x76]"
    by (simp add: decodeURIComponent_def js_def percent_def ParseHexOctet_def hex_digit_def
        leading_ones_def continuation_def UTF16EncodeCodePoint_def)
  have x2: "rx_extended ?d2 = None" by code_simp
  have q2: "rx_quoted ?d2 = Some (js ''a;b.csv'')" by code_simp
  have x3: "rx_extended ?d3 = None" by code_simp
  have q3: "rx_quoted ?d3 = None" by code_simp
  have b3: "rx_bare ?d3 = Some (js ''report-7.csv'')" by code_simp
  have x4: "rx_extended ?d4 = None" by code_simp
  have q4: "rx_quoted ?d4 = None" by code_simp
  have b4: "rx_bare ?d4 = None" by code_simp
  have r1: "parseFilenameFromDisposition (Some ?d1)
              = Inr (Some [0x72, 0xE9, 0x73, 0x75, 0x6D, 0xE9, 0x2E, 0x63, 0x73, 0x76])"
    using filename_precedence[of ?d1 "js ''r%C3%A9sum%C3%A9.csv''"] x1 v1 by simp
  have r2: "parseFilenameFromDisposition (Some ?d2) = Inr (Some (js ''a;b.csv''))"
    using filename_precedence[of ?d2 "js ''a;b.csv''"] x2 q2 by simp
  have r3: "parseFilenameFromDisposition (Some ?d3) = Inr (Some (js ''report-7.csv''))"
    using filename_precedence[of ?d3 "js ''report-7.csv''"] x3 q3 b3 by simp
  have r4: "parseFilenameFromDisposition (Some ?d4) = Inr None"
    using filename_precedence[of ?d4] x4 q4 b4 by simp
  have r5: "resolve_filename (js ''xlsx'') (Some ?d4) = Inr (js ''report.xlsx'')"
    using filename_precedence[of ?d4 _ "Some ?d4" "js ''xlsx''"] r4 by simp
  have r6: "resolve_filename (js ''csv'') None = Inr (js ''report.csv'')"
    using filename_precedence[of ?d4 _ None "js ''csv''"] by (simp add: js_def)
  have r7: "resolve_filename (js ''csv'') (Some ?d3) = Inr (js ''report-7.csv'')"
    using filename_precedence[of ?d3 _ "Some ?d3" "js ''csv''" "js ''report-7.csv''"] r3 by simp
  show ?thesis using r1 r2 r3 r4 r5 r6 r7 by blast
qed

text \<open>
  Claim C1. The order of the forms is as the claim says, but an extended match does not always
  return the decoded value. For the header
  \<^verbatim>\<open>attachment; filename="plain.csv"; filename*=UTF-8''100%.csv\<close> the extended form matches
  with the value \<^verbatim>\<open>100%.csv\<close>, whose \<^verbatim>\<open>%\<close> is not followed by two hexadecimal
  digits: the resolver throws a URIError. It returns neither a decoded name nor the name of the
  quoted form that the header also has nor null, and the transaction gets no filename, not even
  the default.
\<close>

theorem extended_match_without_value:
  "(let d = js ''attachment; filename='' @ dquote # js ''plain.csv'' @ dquote
            # js ''; filename*=UTF-8'' @ apostrophe # apostrophe # js ''100%.csv''
    in rx_extended d = Some (js ''100%.csv'')
       \<and> rx_quoted d = Some (js ''plain.csv'')
       \<and> decodeURIComponent (js ''100%.csv'') = Inl URIError
       \<and> parseFilenameFromDisposition (Some d) = Inl URIError
       \<and> resolve_filename (js ''csv'') (Some d) = Inl URIError)"
proof -
  let ?d = "js ''attachment; filename='' @ dquote # js ''plain.csv'' @ dquote
            # js ''; filename*=UTF-8'' @ apostrophe # apostrophe # js ''100%.csv''"
  have x: "rx_extended ?d = Some (js ''100%.csv'')" by code_simp
  have q: "rx_quoted ?d = Some (js ''plain.csv'')" by code_simp
  have v: "decodeURIComponent (js ''100%.csv'') = Inl URIError"
    by (simp add: decodeURIComponent_def js_def percent_def ParseHexOctet_def hex_digit_def)
  have p: "parseFilenameFromDisposition (Some ?d) = Inl URIError"
    by (simp only: parse_unfold x v option.case sum.case)
  have r: "resolve_filename (js ''csv'') (Some ?d) = Inl URIError"
    by (simp only: resolve_filename_def p sum.case)
  show ?thesis unfolding Let_def using x q v p r by blast
qed

subsection \<open>Values that do not decode\<close>

text \<open>
  The resolver throws exactly when the extended form matches and \<^verbatim>\<open>decodeURIComponent\<close>
  throws on the value; a value without \<^verbatim>\<open>%\<close> always decodes, to itself.
\<close>

lemma Decode_numeral [simp]:
  "Decode octets (numeral k) s = Decode octets (Suc (pred_numeral k)) s"
  by (simp add: numeral_eq_Suc)

lemma Decode_plain: "percent \<notin> set s \<Longrightarrow> Decode [] 0 s = Inr s"
  by (induction s) auto

lemma decodeURIComponent_plain: "percent \<notin> set s \<Longrightarrow> decodeURIComponent s = Inr s"
  by (simp add: decodeURIComponent_def Decode_plain)

lemma parse_throws_iff:
  "parseFilenameFromDisposition (Some d) = Inl e \<longleftrightarrow>
     (\<exists>g. rx_extended d = Some g \<and> decodeURIComponent g = Inl e)"
  by (auto simp: parse_unfold split: option.splits sum.splits)

lemma parse_absent_total: "parseFilenameFromDisposition None = Inr None"
  by (simp add: parseFilenameFromDisposition_def)

lemma resume_resolver_throws:
  assumes "res_ok res" and "res_blob res = Inr blob"
    and "resolve_filename (defaultFormat (modals s ! req_modal r)) (res_disposition res) = Inl err"
  shows "onSubmit_resume r (Responded res) click s = onSubmit_catch (req_modal r) err s"
  using assms by (simp add: onSubmit_resume_def Let_def)

text \<open>
  Claim C2. The resolver is not total. For the header
  \<^verbatim>\<open>attachment; filename*=UTF-8''caf%E9.csv\<close>, whose value has an escape that is not UTF-8,
  \<^verbatim>\<open>parseFilenameFromDisposition\<close> throws a URIError instead of returning a name or null.
  In the transaction the error reaches the \<^verbatim>\<open>catch\<close> block of \<^verbatim>\<open>onSubmit\<close>: the
  response was \<^verbatim>\<open>ok\<close>, yet nothing is saved and the dialog reports a network error.
\<close>

theorem malformed_extended_value_throws:
  "parseFilenameFromDisposition
      (Some (js ''attachment; filename*=UTF-8'' @ apostrophe # apostrophe # js ''caf%E9.csv''))
     = Inl URIError
   \<and> (let s = run [ClickDownload, TypeUsername (js ''ann''), TypePassword (js ''pw''), ClickSubmit]
                (page_loaded True);
          res = \<lparr>res_ok = True, res_status = 200, res_json = JsonReject, res_blob = Inr [80, 75],
                 res_disposition = Some (js ''attachment; filename*=UTF-8''
                                         @ apostrophe # apostrophe # js ''caf%E9.csv'')\<rparr>;
          s' = step (Settle 0 (Responded res) None) s
      in created (effects s') = []
         \<and> error_text (modals s' ! 0) = js ''Network error: URI malformed'')"
proof -
  let ?d = "js ''attachment; filename*=UTF-8'' @ apostrophe # apostrophe # js ''caf%E9.csv''"
  let ?s = "run [ClickDownload, TypeUsername (js ''ann''), TypePassword (js ''pw''), ClickSubmit]
                (page_loaded True)"
  let ?res = "\<lparr>res_ok = True, res_status = 200, res_json = JsonReject, res_blob = Inr [80, 75],
                 res_disposition = Some ?d\<rparr>"
  have x: "rx_extended ?d = Some (js ''caf%E9.csv'')" by code_simp
  have v: "decodeURIComponent (js ''caf%E9.csv'') = Inl URIError"
    by (simp add: decodeURIComponent_def js_def percent_def ParseHexOctet_def hex_digit_def
        leading_ones_def continuation_def UTF16EncodeCodePoint_def)
  have p: "parseFilenameFromDisposition (Some ?d) = Inl URIError"
    by (simp only: parse_unfold x v option.case sum.case)
  have rf: "resolve_filename fmt (Some ?d) = Inl URIError" for fmt
    by (simp only: resolve_filename_def p sum.case)
  have k: "0 < length (pending ?s)" by code_simp
  have m: "req_modal (pending ?s ! 0) = 0" "0 < length (modals ?s)" by code_simp+
  have c: "created (effects ?s) = []" by code_simp
  have t: "error_text_of URIError = js ''URI malformed''" by code_simp
  have "step (Settle 0 (Responded ?res) None) ?s
          = onSubmit_catch 0 URIError (?s\<lparr>pending := take 0 (pending ?s) @ drop (Suc 0) (pending ?s)\<rparr>)"
    using k m(1) by (simp add: resume_resolver_throws rf)
  then have "created (effects (step (Settle 0 (Responded ?res) None) ?s)) = []
      \<and> error_text (modals (step (Settle 0 (Responded ?res) None) ?s) ! 0)
         = js ''Network error: '' @ js ''URI malformed''"
    using c m(2) t by (simp add: error_text_catch)
  moreover have "js ''Network error: '' @ js ''URI malformed'' = js ''Network error: URI malformed''"
    by (simp add: js_def)
  ultimately show ?thesis using p unfolding Let_def by simp
qed

section \<open>The download transaction\<close>

subsection \<open>The numbering of the object URLs\<close>

lemma urls_numbered_fields [simp]:
  "urls_numbered (s\<lparr>isLanding := a\<rparr>) = urls_numbered s"
  "urls_numbered (s\<lparr>chatBody := b\<rparr>) = urls_numbered s"
  "urls_numbered (s\<lparr>userInput := c\<rparr>) = urls_numbered s"
  "urls_numbered (s\<lparr>homeBtn := d\<rparr>) = urls_numbered s"
  "urls_numbered (s\<lparr>anchors := e\<rparr>) = urls_numbered s"
  "urls_numbered (s\<lparr>focus := f\<rparr>) = urls_numbered s"
  "urls_numbered (s\<lparr>pending := g\<rparr>) = urls_numbered s"
  "urls_numbered (s\<lparr>modals := h\<rparr>) = urls_numbered s"
  by (simp_all add: urls_numbered_def fresh_url_def)

lemma urls_numbered_quiet:
  "created es = [] \<Longrightarrow> released es = [] \<Longrightarrow>
     urls_numbered (s\<lparr>effects := effects s @ es\<rparr>) = urls_numbered s"
  by (simp add: urls_numbered_def fresh_url_created)

lemma urls_numbered_same: "effects s' = effects s \<Longrightarrow> urls_numbered s' = urls_numbered s"
  by (simp add: urls_numbered_def fresh_url_def)

lemma urls_numbered_append:
  "effects s' = effects s @ es \<Longrightarrow> created es = [] \<Longrightarrow> released es = [] \<Longrightarrow>
     urls_numbered s' = urls_numbered s"
  by (simp add: urls_numbered_def fresh_url_created)

lemma un_catch: "urls_numbered (onSubmit_catch i err s) = urls_numbered s"
  by (rule urls_numbered_append[of _ _ "[ConsoleError]"]) simp_all

lemma un_http_error: "urls_numbered (http_error i res s) = urls_numbered s"
proof (cases "res_json res = JsonNull")
  case True
  show ?thesis
    by (rule urls_numbered_append[of _ _ "[ConsoleError]"]) (simp_all add: effects_http_error True)
next
  case False
  show ?thesis by (rule urls_numbered_same) (simp add: effects_http_error False)
qed

lemma un_save_file: "urls_numbered s \<Longrightarrow> urls_numbered (save_file i blob name click s)"
proof (cases click)
  case None
  assume "urls_numbered s"
  then show ?thesis
    by (auto simp: None urls_numbered_def effects_save_file fresh_url_created)
next
  case (Some err)
  assume "urls_numbered s"
  then show ?thesis
    by (auto simp: Some urls_numbered_def effects_save_file_throws fresh_url_created)
qed

lemma un_resume: "urls_numbered s \<Longrightarrow> urls_numbered (onSubmit_resume r out click s)"
  by (simp add: onSubmit_resume_def Let_def un_catch un_http_error un_save_file
      split: outcome.splits sum.splits)

lemma un_onSubmit: "urls_numbered (onSubmit i s) = urls_numbered s"
proof -
  from effects_onSubmit[of i s] show ?thesis
  proof
    assume "effects (onSubmit i s) = effects s"
    then show ?thesis by (rule urls_numbered_same)
  next
    assume "\<exists>u p f. effects (onSubmit i s) = effects s @ [Fetch u p f]"
    then obtain u p f where e: "effects (onSubmit i s) = effects s @ [Fetch u p f]" by blast
    show ?thesis by (rule urls_numbered_append[OF e]) simp_all
  qed
qed

lemma un_onCancel: "urls_numbered (onCancel i s) = urls_numbered s"
  by (rule urls_numbered_same) (simp add: onCancel_fields)

lemma un_begin_download: "urls_numbered (begin_download s) = urls_numbered s"
proof -
  from effects_begin_download[of s] show ?thesis
  proof
    assume "effects (begin_download s) = effects s"
    then show ?thesis by (rule urls_numbered_same)
  next
    assume e: "effects (begin_download s) = effects s @ [ConsoleWarn]"
    show ?thesis by (rule urls_numbered_append[OF e]) simp_all
  qed
qed

lemma un_send_click: "urls_numbered (send_click s) = urls_numbered s"
  by (simp add: send_click_def Let_def un_begin_download)
     (simp add: addMessage_def)

lemma un_step: "urls_numbered s \<Longrightarrow> urls_numbered (step e s)"
  by (cases e)
     (simp_all add: download_click_def un_begin_download un_send_click un_onSubmit un_onCancel
        keyHandler_def un_resume urls_numbered_same[of "initReportChat s" s] upd_modal_def
        split: option.splits)

lemma un_run: "urls_numbered s \<Longrightarrow> urls_numbered (run evs s)"
  unfolding run_def by (induction evs arbitrary: s) (simp_all add: un_step)

lemma un_page_loaded: "urls_numbered (page_loaded hdr)"
  by (simp add: page_loaded_def Let_def urls_numbered_def fresh_url_def blank_page_def)

lemma fresh_url_new:
  assumes "urls_numbered s"
  shows "fresh_url s \<notin> set (created (effects s))" "fresh_url s \<notin> set (released (effects s))"
proof -
  have c: "created (effects s) = [0..<fresh_url s]"
    using assms unfolding urls_numbered_def by (rule conjunct1)
  have r: "set (released (effects s)) \<subseteq> set (created (effects s))"
    using assms unfolding urls_numbered_def by (rule conjunct2)
  show 1: "fresh_url s \<notin> set (created (effects s))" by (subst c) simp
  show "fresh_url s \<notin> set (released (effects s))" using 1 r by blast
qed

subsection \<open>One object URL, released once\<close>

text \<open>
  Claim C3, as amended. When a suspended submission is resumed with a response that is
  \<^verbatim>\<open>ok\<close>, whose body is read and whose filename resolves, and the click on the anchor
  returns, the transaction adds exactly this to the trace: the creation of one object URL from the
  bytes, the click on the anchor with the resolved name, and the release of that URL; the URL was
  neither created nor released before. When the request is rejected before a response, no object
  URL is created. (What happens when the click or the filename resolution throws is not part of
  the statement.)
\<close>

theorem transient_resource_lifecycle:
  "(k < length (pending (run evs (page_loaded hdr))) \<and> res_ok res \<and> res_blob res = Inr blob
      \<and> resolve_filename
            (defaultFormat (modals (run evs (page_loaded hdr))
                              ! req_modal (pending (run evs (page_loaded hdr)) ! k)))
            (res_disposition res) = Inr name
    \<longrightarrow> effects (step (Settle k (Responded res) None) (run evs (page_loaded hdr))) =
          effects (run evs (page_loaded hdr))
            @ [CreateObjectURL (fresh_url (run evs (page_loaded hdr))) blob,
               AnchorClick (fresh_url (run evs (page_loaded hdr))) name,
               RevokeObjectURL (fresh_url (run evs (page_loaded hdr)))]
        \<and> fresh_url (run evs (page_loaded hdr))
            \<notin> set (created (effects (run evs (page_loaded hdr))))
        \<and> fresh_url (run evs (page_loaded hdr))
            \<notin> set (released (effects (run evs (page_loaded hdr)))))
   \<and> (k < length (pending (run evs (page_loaded hdr)))
    \<longrightarrow> effects (step (Settle k (Rejected err) click) (run evs (page_loaded hdr))) =
          effects (run evs (page_loaded hdr)) @ [ConsoleError])"
  using fresh_url_new[OF un_run[OF un_page_loaded, of evs hdr]]
  by (simp add: onSubmit_resume_def Let_def effects_save_file fresh_url_def)

theorem transient_resource_lifecycle_witness:
  "(let s = run [ClickDownload, TypeUsername (js ''ann''), TypePassword (js ''pw''), ClickSubmit]
              (page_loaded True);
        res = \<lparr>res_ok = True, res_status = 200, res_json = JsonReject, res_blob = Inr [80, 75],
               res_disposition = Some (js ''attachment; filename='' @ [dquote] @ js ''q3.csv''
                                       @ [dquote])\<rparr>
    in effects (step (Settle 0 (Responded res) None) s) =
         effects s @ [CreateObjectURL 0 [80, 75], AnchorClick 0 (js ''q3.csv''), RevokeObjectURL 0]
       \<and> created (effects s) = [] \<and> released (effects s) = []
       \<and> effects (step (Settle 0 (Rejected (Exn (js ''TypeError'') (js ''Failed to fetch''))) None) s)
           = effects s @ [ConsoleError])"
proof -
  let ?evs = "[ClickDownload, TypeUsername (js ''ann''), TypePassword (js ''pw''), ClickSubmit]"
  let ?s = "run ?evs (page_loaded True)"
  let ?res = "\<lparr>res_ok = True, res_status = 200, res_json = JsonReject, res_blob = Inr [80, 75],
               res_disposition = Some (js ''attachment; filename='' @ [dquote] @ js ''q3.csv''
                                       @ [dquote])\<rparr>"
  have k: "0 < length (pending ?s)" by code_simp
  have n: "resolve_filename (defaultFormat (modals ?s ! req_modal (pending ?s ! 0)))
             (res_disposition ?res) = Inr (js ''q3.csv'')" by code_simp
  have f: "fresh_url ?s = 0" by code_simp
  have c: "created (effects ?s) = []" "released (effects ?s) = []" by code_simp+
  have o: "res_ok ?res" "res_blob ?res = Inr [80, 75]" by simp_all
  show ?thesis
    using transient_resource_lifecycle[of 0 ?evs True ?res "[80, 75]" "js ''q3.csv''"
        "Exn (js ''TypeError'') (js ''Failed to fetch'')" None] k n f c o
    unfolding Let_def by simp
qed

text \<open>
  Claim C3 as it was stated fails. A response that is \<^verbatim>\<open>ok\<close> arrives and the click on the
  anchor throws: the object URL number 0 has been created and the \<^verbatim>\<open>catch\<close> block does not
  release it. And when the body of an \<^verbatim>\<open>ok\<close> response cannot be read, no object URL is
  created at all.
\<close>

theorem transient_resource_counterexample:
  "(let s = run [ClickDownload, TypeUsername (js ''ann''), TypePassword (js ''pw''), ClickSubmit]
              (page_loaded True);
        res = \<lparr>res_ok = True, res_status = 200, res_json = JsonReject, res_blob = Inr [80, 75],
               res_disposition = None\<rparr>;
        s' = step (Settle 0 (Responded res) (Some (Exn (js ''Error'') (js ''click failed'')))) s;
        s'' = step (Settle 0 (Responded (res\<lparr>res_blob := Inl (Exn (js ''TypeError'')
                                                                (js ''network error''))\<rparr>)) None) s
    in created (effects s') = [0] \<and> released (effects s') = []
       \<and> created (effects s'') = [])"
  by code_simp

section \<open>The credential dialog\<close>

subsection \<open>A second submission while one is in flight\<close>

text \<open>
  The Enter key reaches \<^verbatim>\<open>onSubmit\<close> whatever the state of the buttons: with valid
  credentials in the inputs every Enter sends a request and suspends one more invocation.
\<close>

lemma onSubmit_valid:
  assumes i: "i < length (modals s)"
    and ok: "trim (user_value (modals s ! i)) \<noteq> []" "pass_value (modals s ! i) \<noteq> []"
  shows "effects (onSubmit i s) =
           effects s @ [Fetch (trim (user_value (modals s ! i))) (pass_value (modals s ! i))
                          (defaultFormat (modals s ! i))]"
  using assms by (simp add: onSubmit_def Let_def upd_modal_def addMessage_def)

lemma enter_submits_regardless:
  assumes "first_attached (modals s) = Some i"
    and "trim (user_value (modals s ! i)) \<noteq> []" and "pass_value (modals s ! i) \<noteq> []"
  shows "effects (step (KeyDown (js ''Enter'')) s) =
           effects s @ [Fetch (trim (user_value (modals s ! i))) (pass_value (modals s ! i))
                          (defaultFormat (modals s ! i))]"
    and "length (pending (step (KeyDown (js ''Enter'')) s)) = Suc (length (pending s))"
  using assms first_attached_Some[of "modals s" i]
  by (simp_all add: keyHandler_def onSubmit_def Let_def upd_modal_def addMessage_def)

text \<open>
  Claim C4. After a valid submission the two buttons are disabled and a click on Download does
  nothing, but a second Enter in the dialog sends the same request again: two requests are in
  flight for the one dialog.
\<close>

theorem duplicate_submission_by_enter:
  "(let s = run [ClickDownload, TypeUsername (js ''ann''), TypePassword (js ''pw''),
                 KeyDown (js ''Enter'')] (page_loaded True);
        s' = step (KeyDown (js ''Enter'')) s
    in submit_disabled (modals s ! 0) \<and> cancel_disabled (modals s ! 0)
       \<and> step ClickSubmit s = s
       \<and> length (pending s) = 1 \<and> fetches (effects s) = 1
       \<and> length (pending s') = 2 \<and> fetches (effects s') = 2
       \<and> effects s' = effects s @ [Fetch (js ''ann'') (js ''pw'') (js ''csv'')])"
  by code_simp

subsection \<open>The Home button with the dialog open\<close>

lemma modals_initReportChat: "modals (initReportChat s) = modals s"
  by (simp add: initReportChat_def Let_def addMessage_def home_display_eq)

lemma initReportChat_resets:
  "chatBody (initReportChat s) = [Message (js ''bot-message'') (replace_newlines welcome_text),
                                  ReportAction True]"
  "isLanding (initReportChat s)"
  "\<not> home_visible (initReportChat s)"
  "modals (initReportChat s) = modals s"
  "pending (initReportChat s) = pending s"
  by (simp_all add: initReportChat_def Let_def addMessage_def home_display_eq home_visible_def)

text \<open>
  Claim C5. A click on Home with the dialog open clears the chat, shows the welcome message and
  the download button again, hides the Home button and sets the landing flag; the overlay of the
  dialog stays in the document as it was.
\<close>

theorem home_leaves_prompt_open:
  "(let s = run [ClickDownload] (page_loaded True);
        s' = step ClickHome s
    in first_attached (modals s) = Some 0 \<and> home_visible s
       \<and> first_attached (modals s') = Some 0 \<and> modals s' = modals s
       \<and> isLanding s' \<and> \<not> home_visible s'
       \<and> chatBody s' = [Message (js ''bot-message'') welcome_text, ReportAction True])"
  by code_simp

subsection \<open>The Home button and the landing flag\<close>
















subsection \<open>At most one overlay\<close>

lemma so_fields [simp]:
  "single_overlay (s\<lparr>isLanding := a\<rparr>) = single_overlay s"
  "single_overlay (s\<lparr>chatBody := b\<rparr>) = single_overlay s"
  "single_overlay (s\<lparr>userInput := c\<rparr>) = single_overlay s"
  "single_overlay (s\<lparr>homeBtn := d\<rparr>) = single_overlay s"
  "single_overlay (s\<lparr>anchors := e\<rparr>) = single_overlay s"
  "single_overlay (s\<lparr>focus := f\<rparr>) = single_overlay s"
  "single_overlay (s\<lparr>pending := g\<rparr>) = single_overlay s"
  "single_overlay (s\<lparr>effects := h\<rparr>) = single_overlay s"
  by (simp_all add: single_overlay_def)

lemma so_addMessage [simp]: "single_overlay (addMessage c x s) = single_overlay s"
  by (simp add: addMessage_def)

lemma so_home_display [simp]: "single_overlay (home_display b s) = single_overlay s"
  by (simp add: home_display_eq)

lemma so_upd_modal:
  assumes "\<forall>m. attached (f m) \<longrightarrow> attached m" and "single_overlay s"
  shows "single_overlay (upd_modal i f s)"
proof -
  have "length (filter attached ((modals s)[i := f (modals s ! i)]))
          \<le> length (filter attached (modals s))"
    by (rule filter_update_le) (simp add: assms(1))
  then show ?thesis using assms(2) by (simp add: single_overlay_def upd_modal_def)
qed

lemma so_closeModal: "single_overlay s \<Longrightarrow> single_overlay (closeModal i s)"
  by (simp add: closeModal_def Let_def so_upd_modal)

lemma so_focus_username [simp]: "single_overlay (focus_username i s) = single_overlay s"
  by (simp add: focus_username_def)

lemma so_onCancel: "single_overlay s \<Longrightarrow> single_overlay (onCancel i s)"
  by (simp add: onCancel_def Let_def so_closeModal)

lemma so_onSubmit: "single_overlay s \<Longrightarrow> single_overlay (onSubmit i s)"
  by (simp add: onSubmit_def Let_def so_upd_modal)

lemma so_reenable: "single_overlay s \<Longrightarrow> single_overlay (reenable i s)"
  by (simp add: reenable_def Let_def so_upd_modal)

lemma so_catch: "single_overlay s \<Longrightarrow> single_overlay (onSubmit_catch i err s)"
  by (simp add: onSubmit_catch_def Let_def so_upd_modal so_reenable)

lemma so_http_error: "single_overlay s \<Longrightarrow> single_overlay (http_error i res s)"
  by (cases "res_json res") (simp_all add: http_error_def Let_def so_upd_modal so_reenable so_catch)

lemma so_save_file: "single_overlay s \<Longrightarrow> single_overlay (save_file i blob name click s)"
  by (cases click) (simp_all add: save_file_def Let_def so_closeModal so_catch)

lemma so_resume: "single_overlay s \<Longrightarrow> single_overlay (onSubmit_resume r out click s)"
  by (simp add: onSubmit_resume_def Let_def so_catch so_http_error so_save_file
      split: outcome.splits sum.splits)

lemma so_open: "single_overlay s \<Longrightarrow> single_overlay (snd (openCredentialModal fmt s))"
  by (cases "first_attached (modals s)")
     (simp_all add: openCredentialModal_def, simp add: single_overlay_def first_attached_None new_modal_def)

lemma so_begin_download: "single_overlay s \<Longrightarrow> single_overlay (begin_download s)"
  by (simp add: begin_download_def Let_def so_open)

lemma so_init [simp]: "single_overlay (initReportChat s) = single_overlay s"
  by (simp add: initReportChat_def Let_def)

lemma so_send_click: "single_overlay s \<Longrightarrow> single_overlay (send_click s)"
  by (simp add: send_click_def Let_def so_begin_download)

lemma so_step: "single_overlay s \<Longrightarrow> single_overlay (step e s)"
  by (cases e)
     (simp_all add: download_click_def so_begin_download so_send_click so_onSubmit so_onCancel
        keyHandler_def so_resume so_upd_modal split: option.splits)

lemma so_run: "single_overlay s \<Longrightarrow> single_overlay (run evs s)"
  unfolding run_def by (induction evs arbitrary: s) (simp_all add: so_step)

lemma so_page_loaded: "single_overlay (page_loaded hdr)"
  by (simp add: page_loaded_def Let_def) (simp add: single_overlay_def blank_page_def)

text \<open>
  Claim C7. At every moment at most one credential overlay is in the document, and a call of
  \<^verbatim>\<open>openCredentialModal\<close> while one is there returns that overlay and changes nothing in
  the page: it only writes a warning to the console.
\<close>

theorem single_credential_prompt:
  "single_overlay (run evs (page_loaded hdr))
   \<and> (first_attached (modals s) = Some i \<longrightarrow>
        openCredentialModal fmt s = (i, s\<lparr>effects := effects s @ [ConsoleWarn]\<rparr>)
        \<and> i < length (modals s) \<and> attached (modals s ! i))"
  using so_run[OF so_page_loaded] first_attached_Some[of "modals s" i]
  by (simp add: openCredentialModal_def)

theorem single_credential_prompt_witness:
  "single_overlay (run [ClickDownload, TypeMessage (js ''download''), ClickSend] (page_loaded True))
   \<and> openCredentialModal (js ''xlsx'') (run [ClickDownload] (page_loaded True))
       = (0, (run [ClickDownload] (page_loaded True))
               \<lparr>effects := effects (run [ClickDownload] (page_loaded True)) @ [ConsoleWarn]\<rparr>)"
proof -
  have h: "first_attached (modals (run [ClickDownload] (page_loaded True))) = Some 0"
    by code_simp
  show ?thesis
    using single_credential_prompt[of "[ClickDownload, TypeMessage (js ''download''), ClickSend]"
        True "run [ClickDownload] (page_loaded True)" 0 "js ''xlsx''"] h
    by blast
qed

subsection \<open>Validation of a submission\<close>

lemma onSubmit_invalid:
  assumes i: "i < length (modals s)" and a: "attached (modals s ! i)"
    and bad: "trim (user_value (modals s ! i)) = [] \<or> pass_value (modals s ! i) = []"
  shows "onSubmit i s =
           s\<lparr>modals := (modals s)[i := (modals s ! i)
                 \<lparr>error_text := js ''Please enter both username and password.''\<rparr>],
             focus := CredUser i\<rparr>"
  using assms by (auto simp: onSubmit_def Let_def upd_modal_def focus_username_def)

text \<open>
  Claim C8. A submission, by the Download button or by the Enter key, whose username is empty
  after trimming or whose password is empty changes two things only: the error line of the dialog
  shows the message and the username input gets the focus. No request is sent, nothing is
  suspended, and the landing flag, the Home button and the chat are as before.
\<close>

theorem invalid_submission:
  assumes "first_attached (modals s) = Some i"
    and "trim (user_value (modals s ! i)) = [] \<or> pass_value (modals s ! i) = []"
  shows "step (KeyDown (js ''Enter'')) s = onSubmit i s
         \<and> (step ClickSubmit s = onSubmit i s \<or> step ClickSubmit s = s)
         \<and> onSubmit i s =
             s\<lparr>modals := (modals s)[i := (modals s ! i)
                   \<lparr>error_text := js ''Please enter both username and password.''\<rparr>],
               focus := CredUser i\<rparr>"
  using assms first_attached_Some[of "modals s" i]
  by (simp add: keyHandler_def onSubmit_invalid)

theorem invalid_submission_witness:
  "(let s = run [ClickDownload, TypeUsername (js '' ''), TypePassword (js ''pw'')] (page_loaded True);
        s' = step (KeyDown (js ''Enter'')) s
    in error_text (modals s' ! 0) = js ''Please enter both username and password.''
       \<and> focus s' = CredUser 0 \<and> effects s' = effects s \<and> pending s' = pending s
       \<and> isLanding s' = isLanding s \<and> homeBtn s' = homeBtn s \<and> chatBody s' = chatBody s)"
proof -
  let ?s = "run [ClickDownload, TypeUsername (js '' ''), TypePassword (js ''pw'')] (page_loaded True)"
  have h: "first_attached (modals ?s) = Some 0" by code_simp
  have b: "trim (user_value (modals ?s ! 0)) = []" by code_simp
  have l: "0 < length (modals ?s)" using first_attached_Some[OF h] by simp
  from invalid_submission[OF h] b
  have "step (KeyDown (js ''Enter'')) ?s
     = ?s\<lparr>modals := (modals ?s)[0 := (modals ?s ! 0)
                 \<lparr>error_text := js ''Please enter both username and password.''\<rparr>],
           focus := CredUser 0\<rparr>" by simp
  then show ?thesis using l by (simp add: Let_def)
qed

subsection \<open>Markup in a message\<close>

text \<open>
  A content without \<^verbatim>\<open><\<close>, \<^verbatim>\<open>&\<close>, NUL and CR is shown as its literal text, with a
  line break for every line feed.
\<close>

lemma html_children_plain:
  "0x3C \<notin> set content \<Longrightarrow> 0x26 \<notin> set content \<Longrightarrow> 0x00 \<notin> set content \<Longrightarrow>
   0x0D \<notin> set content \<Longrightarrow> message_shows content = Some (literal_text content)"
  unfolding message_shows_def literal_text_def replace_newlines_def
  by (induction content) (auto simp: js_def)

text \<open>
  Claim C9. The user types \<^verbatim>\<open>a<br/>b\<close> and sends it. The message is appended with that
  string as its \<^verbatim>\<open>innerHTML\<close>, and it shows a, a line break, b: the five code units
  \<^verbatim>\<open><br/>\<close> of the content are read as markup, and the message cannot be told from the
  one for the content with a line feed in their place.
\<close>

theorem typed_markup_is_interpreted:
  "(let s = run [TypeMessage (js ''a<br/>b''), ClickSend] (page_loaded True)
    in chatBody s ! 2 = Message (js ''user-message'') (js ''a<br/>b'')
       \<and> html_children (js ''a<br/>b'') = Some [Chr 0x61, LineBreak, Chr 0x62]
       \<and> literal_text (js ''a<br/>b'')
           = [Chr 0x61, Chr 0x3C, Chr 0x62, Chr 0x72, Chr 0x2F, Chr 0x3E, Chr 0x62]
       \<and> message_shows (js ''a<br/>b'') = message_shows [0x61, 0x0A, 0x62])"
  by code_simp

subsection \<open>Escape while a request is in flight\<close>

lemma first_attached_cleared:
  assumes "single_overlay s" and "first_attached (modals s) = Some i" and "\<not> attached m"
  shows "first_attached ((modals s)[i := m]) = None"
proof -
  have i: "i < length (modals s)" "attached (modals s ! i)"
    using first_attached_Some[OF assms(2)] by simp_all
  have a: "Suc (length (filter attached ((modals s)[i := m]))) = length (filter attached (modals s))"
    using i assms(3) by (rule filter_update_clear)
  have b: "length (filter attached (modals s)) \<le> 1"
    using assms(1) unfolding single_overlay_def .
  from a b have "length (filter attached ((modals s)[i := m])) = 0"
    by linarith
  then have "filter attached ((modals s)[i := m]) = []"
    by (simp only: length_0_conv)
  then show ?thesis by (simp add: first_attached_None)
qed

text \<open>
  Claim C10. While a submission is in flight both buttons of the dialog are disabled, so a click
  on Cancel (or on Download) does nothing. The Escape key still reaches \<^verbatim>\<open>onCancel\<close>: the
  cancellation message is appended, the overlay is closed and leaves the document, the Home button
  is displayed and the landing flag is false. The request stays suspended.
\<close>

theorem escape_while_in_flight:
  assumes "single_overlay s" and "first_attached (modals s) = Some i"
    and "submit_disabled (modals s ! i)" and "cancel_disabled (modals s ! i)"
  shows "step ClickCancel s = s \<and> step ClickSubmit s = s
         \<and> step (KeyDown (js ''Escape'')) s = onCancel i s
         \<and> chatBody (onCancel i s) =
             chatBody s @ [Message (js ''bot-message'') (js ''Report download cancelled.'')]
         \<and> \<not> attached (modals (onCancel i s) ! i)
         \<and> first_attached (modals (onCancel i s)) = None
         \<and> home_visible (onCancel i s) \<and> \<not> isLanding (onCancel i s)
         \<and> effects (onCancel i s) = effects s \<and> pending (onCancel i s) = pending s"
proof -
  have i: "i < length (modals s)" using first_attached_Some[OF assms(2)] by simp
  have k: "step (KeyDown (js ''Escape'')) s = onCancel i s"
    using assms(2) by (simp add: keyHandler_def js_def)
  have c: "first_attached (modals (onCancel i s)) = None"
    unfolding onCancel_fields by (rule first_attached_cleared[OF assms(1,2)]) simp
  show ?thesis using assms i k c by (simp add: onCancel_fields)
qed

theorem escape_while_in_flight_witness:
  "(let s = run [ClickDownload, TypeUsername (js ''ann''), TypePassword (js ''pw''), ClickSubmit]
              (page_loaded True);
        s' = step (KeyDown (js ''Escape'')) s
    in submit_disabled (modals s ! 0) \<and> cancel_disabled (modals s ! 0) \<and> length (pending s) = 1
       \<and> step ClickCancel s = s
       \<and> chatBody s' =
             chatBody s @ [Message (js ''bot-message'') (js ''Report download cancelled.'')]
       \<and> first_attached (modals s') = None \<and> home_visible s' \<and> \<not> isLanding s'
       \<and> pending s' = pending s)"
proof -
  let ?s = "run [ClickDownload, TypeUsername (js ''ann''), TypePassword (js ''pw''), ClickSubmit]
              (page_loaded True)"
  have so: "single_overlay ?s" by (rule so_run[OF so_page_loaded])
  have h: "first_attached (modals ?s) = Some 0" by code_simp
  have d: "submit_disabled (modals ?s ! 0)" "cancel_disabled (modals ?s ! 0)" by code_simp+
  have p: "length (pending ?s) = 1" by code_simp
  show ?thesis using escape_while_in_flight[OF so h d] d p by (simp add: Let_def)
qed

end
